theory Spec2Isabelle
  imports Main "HOL-Library.Word"
begin

section \<open>Data model of the virtual machine\<close>

text \<open>
  A shallow embedding of the opcode table (\<open>neo-blockchain-vm/src/opcodes.js\<close>) and of the
  system calls (\<open>neo-blockchain-vm/src/syscalls.js\<close>). A JavaScript \<open>Buffer\<close> is a list of
  bytes, a \<open>BN\<close> is an \<open>int\<close>, a thrown error is the left summand of a sum type, an
  awaited promise is the value it resolves to (or the error it rejects with).
\<close>

type_synonym byte = "8 word"
type_synonym Buffer = "byte list"
type_synonym UInt160 = Buffer
type_synonym UInt256 = Buffer
type_synonym ECPoint = Buffer
type_synonym UInt160Hex = string
type_synonym UInt256Hex = string

datatype error =
    UnknownOpError
  | PushOnlyError nat
  | CodeOverflowError
  | InvalidCheckMultisigArgumentsError
  | InvalidPackCountError
  | InvalidPickItemIndexError
  | InvalidSetItemIndexError
  | InvalidTypeError
  | InvalidFormatError
  | InvalidScriptContainerTypeError
  | TooManyVotesError
  | AccountFrozenError
  | NotEligibleVoteError
  | BadWitnessCheckError
  | ContractNoStorageError
  | InvalidContractGetStorageContextError
  | KeyNotFoundError
  | UnknownSysCallError string
  | StackUnderflowError
  | TypeError
  | RangeError
  | OtherError string

text \<open>Sequencing of fallible steps: the first thrown error ends the computation.\<close>

definition bindE :: "error + 'a \<Rightarrow> ('a \<Rightarrow> error + 'b) \<Rightarrow> error + 'b" where
  "bindE m f = (case m of Inl e \<Rightarrow> Inl e | Inr x \<Rightarrow> f x)"

fun mapE :: "('a \<Rightarrow> error + 'b) \<Rightarrow> 'a list \<Rightarrow> error + 'b list" where
  "mapE f [] = Inr []"
| "mapE f (x # xs) = bindE (f x) (\<lambda>y. bindE (mapE f xs) (\<lambda>ys. Inr (y # ys)))"

subsection \<open>Ledger entities\<close>

text \<open>\<open>neo-blockchain-core/src/Account.js\<close>; \<open>balances\<close> is the object keyed by asset hash.\<close>

record Account =
  hash :: UInt160
  isFrozen :: bool
  votes :: "ECPoint list"
  balances :: "(UInt256Hex \<times> int) list"

text \<open>The fields of \<open>Contract\<close> (its constructor does not store the \<open>hash\<close> it is given).\<close>

record Contract =
  script :: Buffer
  parameterList :: "int list"
  returnType :: int
  hasStorage :: bool
  contractName :: string
  codeVersion :: string
  author :: string
  email :: string
  description :: string

subsection \<open>Stack items\<close>

text \<open>
  Arrays and structs are JavaScript objects with identity: the stack item holds the address
  of its element list in a heap of arrays. A new object takes the next free address.
\<close>

type_synonym addr = nat

datatype StackItem =
    IntegerStackItem int
  | BooleanStackItem bool
  | BufferStackItem Buffer
  | ArrayStackItem addr
  | StructStackItem addr
  | UInt160StackItem UInt160
  | UInt256StackItem UInt256
  | ECPointStackItem ECPoint
  | AccountStackItem Account
  | ContractStackItem Contract
  | StorageContextStackItem UInt160

type_synonym heap = "StackItem list list"

definition alloc :: "heap \<Rightarrow> StackItem list \<Rightarrow> heap \<times> addr" where
  "alloc h xs = (h @ [xs], length h)"

text \<open>
  Modelled from the spec: the classes \<open>ArrayStackItem\<close>, \<open>StructStackItem\<close> and
  \<open>StackItemBase\<close> are not under src/. \<open>isArray\<close> holds of arrays and structs (a Struct
  behaves like an Array); the typed accessors return the payload of their own variant and
  fail with \<open>InvalidTypeError\<close> on every other one, as \<open>asInput\<close>, \<open>asValidator\<close> and
  \<open>asHeader\<close> of the object wrappers under src/ return \<open>this.value\<close>.
\<close>

fun isArray :: "StackItem \<Rightarrow> bool" where
  "isArray (ArrayStackItem a) = True"
| "isArray (StructStackItem a) = True"
| "isArray _ = False"

fun arrayRef :: "StackItem \<Rightarrow> error + addr" where
  "arrayRef (ArrayStackItem a) = Inr a"
| "arrayRef (StructStackItem a) = Inr a"
| "arrayRef _ = Inl InvalidTypeError"

definition asArray :: "heap \<Rightarrow> StackItem \<Rightarrow> error + StackItem list" where
  "asArray h v = bindE (arrayRef v) (\<lambda>a. if a < length h then Inr (h ! a) else Inl TypeError)"

fun asAccount :: "StackItem \<Rightarrow> error + Account" where
  "asAccount (AccountStackItem a) = Inr a"
| "asAccount _ = Inl InvalidTypeError"

fun asContract :: "StackItem \<Rightarrow> error + Contract" where
  "asContract (ContractStackItem c) = Inr c"
| "asContract _ = Inl InvalidTypeError"

fun asECPoint :: "StackItem \<Rightarrow> error + ECPoint" where
  "asECPoint (ECPointStackItem p) = Inr p"
| "asECPoint _ = Inl InvalidTypeError"

fun asUInt256 :: "StackItem \<Rightarrow> error + UInt256" where
  "asUInt256 (UInt256StackItem u) = Inr u"
| "asUInt256 _ = Inl InvalidTypeError"

subsection \<open>Execution context\<close>

text \<open>
  The script container: its \<open>type\<close> tag (\<open>0x00\<close> transaction, \<open>0x01\<close> block), the message
  that signatures are checked against, and the outcome of its method
  \<open>getScriptHashesForVerifying\<close> (the transaction and block classes are not under src/).
\<close>

record ScriptContainer =
  containerType :: nat
  message :: Buffer
  scriptHashesForVerifying :: "error + UInt160Hex list"

record ExecutionInit =
  scriptContainer :: ScriptContainer
  triggerType :: nat

text \<open>
  The ledger facade \<open>WriteBlockchain\<close>, reduced to the collections the embedded system
  calls touch; each collection is a finite map, \<open>settings.governingToken.hashHex\<close> a string.
\<close>

record Blockchain =
  account :: "UInt160 \<rightharpoonup> Account"
  contract :: "UInt160 \<rightharpoonup> Contract"
  storageItem :: "(UInt160 \<times> Buffer) \<rightharpoonup> Buffer"
  governingTokenHashHex :: UInt256Hex

record ExecutionContext =
  blockchain :: Blockchain
  init :: ExecutionInit
  code :: Buffer
  pushOnly :: bool
  scriptHash :: UInt160
  callingScriptHash :: "UInt160 option"
  entryScriptHash :: UInt160
  pc :: int
  depth :: nat
  stack :: "StackItem list"
  stackAlt :: "StackItem list"
  isDone :: bool
  gasLeft :: int
  actionIndex :: nat
  createdContracts :: "UInt160Hex \<rightharpoonup> UInt160"

text \<open>\<open>OpResult\<close>: an absent \<open>results\<close> or \<open>resultsAlt\<close> is the empty list.\<close>

record OpResult =
  res_context :: ExecutionContext
  results :: "StackItem list"
  resultsAlt :: "StackItem list"

type_synonym OpInvoke =
  "heap \<Rightarrow> ExecutionContext \<Rightarrow> StackItem list \<Rightarrow> StackItem list \<Rightarrow> error + (heap \<times> OpResult)"

record Op =
  op_name :: string
  op_in :: int
  op_inAlt :: int
  op_out :: int
  op_outAlt :: int
  op_modify :: int
  op_modifyAlt :: int
  op_invocation :: int
  op_array :: int
  op_item :: int
  op_fee :: int
  op_invoke :: OpInvoke
  op_context :: ExecutionContext

text \<open>
  What the opcode table uses from modules that are not under src/, taken as parameters:
  the coercions of \<open>StackItemBase\<close>, \<open>vmUtils.toNumber\<close> and \<open>vmUtils.toStorageContext\<close>,
  and \<open>crypto.verify\<close> (message, signature, public key; \<open>Inl\<close> when it throws),
  \<open>crypto.hash160\<close> and \<open>crypto.toScriptHash\<close>.
\<close>

record externals =
  asBuffer :: "StackItem \<Rightarrow> error + Buffer"
  asBigInteger :: "StackItem \<Rightarrow> error + int"
  asBoolean :: "StackItem \<Rightarrow> error + bool"
  asString :: "StackItem \<Rightarrow> error + string"
  toNumber :: "int \<Rightarrow> error + int"
  toStorageContext :: "ExecutionContext \<Rightarrow> StackItem \<Rightarrow> error + UInt160"
  assertContractParameterType :: "int \<Rightarrow> error + int"
  verify :: "Buffer \<Rightarrow> Buffer \<Rightarrow> Buffer \<Rightarrow> error + bool"
  hash160 :: "Buffer \<Rightarrow> UInt160"
  toScriptHash :: "Buffer \<Rightarrow> UInt160"

section \<open>Opcodes\<close>

subsection \<open>createOp\<close>

text \<open>The argument object of \<open>createOp\<close>: every field but \<open>name\<close> and \<open>invoke\<close> is optional.\<close>

record OpArgs =
  a_name :: string
  a_in :: "int option"
  a_inAlt :: "int option"
  a_out :: "int option"
  a_outAlt :: "int option"
  a_modify :: "int option"
  a_modifyAlt :: "int option"
  a_invocation :: "int option"
  a_array :: "int option"
  a_item :: "int option"
  a_fee :: "int option"
  a_invoke :: OpInvoke

text \<open>\<open>x || 0\<close>: an omitted field (and 0 itself) gives 0.\<close>

definition orZero :: "int option \<Rightarrow> int" where
  "orZero v = (case v of None \<Rightarrow> 0 | Some n \<Rightarrow> n)"

definition createOp :: "OpArgs \<Rightarrow> ExecutionContext \<Rightarrow> Op" where
  "createOp a context =
     \<lparr> op_name = a_name a,
       op_in = orZero (a_in a),
       op_inAlt = orZero (a_inAlt a),
       op_out = orZero (a_out a),
       op_outAlt = orZero (a_outAlt a),
       op_modify = orZero (a_modify a),
       op_modifyAlt = orZero (a_modifyAlt a),
       op_invocation = orZero (a_invocation a),
       op_array = orZero (a_array a),
       op_item = orZero (a_item a),
       op_fee = orZero (a_fee a),
       op_invoke = a_invoke a,
       op_context = context \<rparr>"

text \<open>An argument object with only \<open>name\<close> and \<open>invoke\<close> given.\<close>

definition opArgs :: "string \<Rightarrow> OpInvoke \<Rightarrow> OpArgs" where
  "opArgs n f =
     \<lparr> a_name = n, a_in = None, a_inAlt = None, a_out = None, a_outAlt = None,
       a_modify = None, a_modifyAlt = None, a_invocation = None, a_array = None,
       a_item = None, a_fee = None, a_invoke = f \<rparr>"

definition opResult :: "heap \<Rightarrow> ExecutionContext \<Rightarrow> StackItem list \<Rightarrow> StackItem list
    \<Rightarrow> error + (heap \<times> OpResult)" where
  "opResult h context rs rsAlt =
     Inr (h, \<lparr> res_context = context, results = rs, resultsAlt = rsAlt \<rparr>)"

text \<open>
  Indexing of \<open>args\<close>, \<open>stack\<close> and \<open>code\<close> by a JavaScript number. An index outside the
  array gives \<open>undefined\<close>: \<open>None\<close> for \<open>stackAt\<close> and \<open>codeAt\<close>, where the source tests
  for it; for \<open>arg\<close> the model faults with the \<open>TypeError\<close> that a method call on
  \<open>undefined\<close> throws.
\<close>

definition arg :: "StackItem list \<Rightarrow> int \<Rightarrow> error + StackItem" where
  "arg args i = (if 0 \<le> i \<and> i < int (length args) then Inr (args ! nat i) else Inl TypeError)"

definition stackAt :: "StackItem list \<Rightarrow> int \<Rightarrow> StackItem option" where
  "stackAt stk i = (if 0 \<le> i \<and> i < int (length stk) then Some (stk ! nat i) else None)"

definition codeAt :: "Buffer \<Rightarrow> int \<Rightarrow> nat option" where
  "codeAt buf i = (if 0 \<le> i \<and> i < int (length buf) then Some (unat (buf ! nat i)) else None)"

text \<open>\<open>Array.prototype.slice(begin, end)\<close> and \<open>slice(begin)\<close>.\<close>

definition jsSlice :: "'a list \<Rightarrow> int \<Rightarrow> int \<Rightarrow> 'a list" where
  "jsSlice xs b e =
     (let len = int (length xs);
          k = (if b < 0 then max (len + b) 0 else min b len);
          final = (if e < 0 then max (len + e) 0 else min e len)
      in take (nat (final - k)) (drop (nat k) xs))"

definition jsSliceFrom :: "'a list \<Rightarrow> int \<Rightarrow> 'a list" where
  "jsSliceFrom xs b = jsSlice xs b (int (length xs))"

text \<open>
  \<open>Buffer.readInt16LE(offset)\<close>: a \<open>RangeError\<close> unless both bytes lie inside the buffer;
  otherwise \<open>val = b0 | (b1 << 8)\<close>, read as a signed 16-bit value.
\<close>

definition readInt16LE :: "Buffer \<Rightarrow> int \<Rightarrow> error + int" where
  "readInt16LE buf offset =
     (if 0 \<le> offset \<and> offset + 2 \<le> int (length buf) then
        (let val = uint (buf ! nat offset) + 256 * uint (buf ! nat (offset + 1))
         in Inr (if 32768 \<le> val then val - 65536 else val))
      else Inl RangeError)"

subsection \<open>Constant pushes and control flow\<close>

definition pushNumber :: "string \<Rightarrow> int \<Rightarrow> ExecutionContext \<Rightarrow> Op" where
  "pushNumber n v =
     createOp ((opArgs n (\<lambda>h context args argsAlt.
         opResult h context [IntegerStackItem v] []))
       \<lparr> a_out := Some 1 \<rparr>)"

definition PUSH0 :: "ExecutionContext \<Rightarrow> Op" where
  "PUSH0 =
     createOp ((opArgs ''PUSH0'' (\<lambda>h context args argsAlt.
         opResult h context [BufferStackItem []] []))
       \<lparr> a_out := Some 1 \<rparr>)"

definition NOP :: "ExecutionContext \<Rightarrow> Op" where
  "NOP = createOp (opArgs ''NOP'' (\<lambda>h context args argsAlt. opResult h context [] []))"

definition RET :: "ExecutionContext \<Rightarrow> Op" where
  "RET =
     createOp (opArgs ''RET'' (\<lambda>h context args argsAlt.
       opResult h (context \<lparr> isDone := True \<rparr>) [] []))"

text \<open>
  \<open>jump\<close>: \<open>checkTrue\<close> is absent for \<open>JMP\<close>, \<open>true\<close> for \<open>JMPIF\<close>, \<open>false\<close> for \<open>JMPIFNOT\<close>.
  The context handed to \<open>invoke\<close> already has \<open>pc\<close> behind the opcode byte.
\<close>

definition jump_invoke :: "externals \<Rightarrow> bool option \<Rightarrow> OpInvoke" where
  "jump_invoke X checkTrue h context args argsAlt =
     bindE (readInt16LE (code context) (pc context)) (\<lambda>offset.
       let pc1 = pc context + 2;
           newPC = pc1 + offset - 3
       in if newPC < 0 \<or> newPC > int (length (code context)) then Inl CodeOverflowError
          else bindE
            (case checkTrue of
               None \<Rightarrow> Inr True
             | Some ct \<Rightarrow>
                 bindE (arg args 0) (\<lambda>a0.
                 bindE (asBoolean X a0) (\<lambda>b.
                   Inr (if \<not> ct then \<not> b else b))))
            (\<lambda>shouldJump.
               opResult h (context \<lparr> pc := (if shouldJump then newPC else pc1) \<rparr>) [] []))"

definition jump :: "externals \<Rightarrow> string \<Rightarrow> bool option \<Rightarrow> ExecutionContext \<Rightarrow> Op" where
  "jump X n checkTrue =
     createOp ((opArgs n (jump_invoke X checkTrue))
       \<lparr> a_in := Some (if checkTrue = None then 0 else 1) \<rparr>)"

definition JMP :: "externals \<Rightarrow> ExecutionContext \<Rightarrow> Op" where
  "JMP X = jump X ''JMP'' None"

subsection \<open>Stack shuffling\<close>

definition DUP :: "ExecutionContext \<Rightarrow> Op" where
  "DUP =
     createOp ((opArgs ''DUP'' (\<lambda>h context args argsAlt.
         bindE (arg args 0) (\<lambda>a0. opResult h context [a0, a0] [])))
       \<lparr> a_in := Some 1, a_out := Some 2 \<rparr>)"

definition NIP :: "ExecutionContext \<Rightarrow> Op" where
  "NIP =
     createOp ((opArgs ''NIP'' (\<lambda>h context args argsAlt.
         bindE (arg args 0) (\<lambda>a0. opResult h context [a0] [])))
       \<lparr> a_in := Some 2, a_out := Some 1 \<rparr>)"

definition OVER :: "ExecutionContext \<Rightarrow> Op" where
  "OVER =
     createOp ((opArgs ''OVER'' (\<lambda>h context args argsAlt.
         bindE (arg args 0) (\<lambda>a0.
         bindE (arg args 1) (\<lambda>a1. opResult h context [a1, a0, a1] []))))
       \<lparr> a_in := Some 2 \<rparr>)"

definition ROT :: "ExecutionContext \<Rightarrow> Op" where
  "ROT =
     createOp ((opArgs ''ROT'' (\<lambda>h context args argsAlt.
         bindE (arg args 0) (\<lambda>a0.
         bindE (arg args 1) (\<lambda>a1.
         bindE (arg args 2) (\<lambda>a2. opResult h context [a1, a0, a2] [])))))
       \<lparr> a_in := Some 3, a_out := Some 3 \<rparr>)"

definition SWAP :: "ExecutionContext \<Rightarrow> Op" where
  "SWAP =
     createOp ((opArgs ''SWAP'' (\<lambda>h context args argsAlt.
         bindE (arg args 0) (\<lambda>a0.
         bindE (arg args 1) (\<lambda>a1. opResult h context [a0, a1] []))))
       \<lparr> a_in := Some 2, a_out := Some 2 \<rparr>)"

definition TUCK :: "ExecutionContext \<Rightarrow> Op" where
  "TUCK =
     createOp ((opArgs ''TUCK'' (\<lambda>h context args argsAlt.
         bindE (arg args 0) (\<lambda>a0.
         bindE (arg args 1) (\<lambda>a1. opResult h context [a0, a1, a0] []))))
       \<lparr> a_in := Some 2, a_out := Some 3 \<rparr>)"

subsection \<open>Signatures\<close>

definition CHECKSIG_invoke :: "externals \<Rightarrow> OpInvoke" where
  "CHECKSIG_invoke X h context args argsAlt =
     bindE (arg args 0) (\<lambda>a0.
     bindE (asBuffer X a0) (\<lambda>publicKey.
     bindE (arg args 1) (\<lambda>a1.
     bindE (asBuffer X a1) (\<lambda>signature.
       let result =
             (case verify X (message (scriptContainer (init context))) signature publicKey of
                Inl e \<Rightarrow> False
              | Inr r \<Rightarrow> r)
       in opResult h context [BooleanStackItem result] []))))"

definition CHECKSIG :: "externals \<Rightarrow> ExecutionContext \<Rightarrow> Op" where
  "CHECKSIG X =
     createOp ((opArgs ''CHECKSIG'' (CHECKSIG_invoke X))
       \<lparr> a_in := Some 2, a_out := Some 1 \<rparr>)"

text \<open>
  The loop of \<open>CHECKMULTISIG\<close> with its cursors \<open>i\<close> (signatures) and \<open>j\<close> (public keys);
  a throwing \<open>crypto.verify\<close> leaves the \<open>try\<close> block with \<open>result = false\<close>.
\<close>

function checkMultisigLoop ::
  "(Buffer \<Rightarrow> Buffer \<Rightarrow> Buffer \<Rightarrow> error + bool) \<Rightarrow> Buffer \<Rightarrow> Buffer list \<Rightarrow> Buffer list
     \<Rightarrow> nat \<Rightarrow> nat \<Rightarrow> bool \<Rightarrow> bool" where
  "checkMultisigLoop vf msg signatures publicKeys i j result =
     (if result \<and> i < length signatures \<and> j < length publicKeys then
        (case vf msg (signatures ! i) (publicKeys ! j) of
           Inl e \<Rightarrow> False
         | Inr currentResult \<Rightarrow>
             checkMultisigLoop vf msg signatures publicKeys
               (if currentResult then i + 1 else i) (j + 1)
               (if int (length signatures) - int (if currentResult then i + 1 else i)
                     > int (length publicKeys) - int (j + 1)
                then False else result))
      else result)"
  by pat_completeness auto
termination
  by (relation "measure (\<lambda>(vf, msg, signatures, publicKeys, i, j, result). length publicKeys - j)")
     auto

declare checkMultisigLoop.simps [simp del]

definition CHECKMULTISIG_invoke :: "externals \<Rightarrow> OpInvoke" where
  "CHECKMULTISIG_invoke X h context args argsAlt =
     bindE (arg args 0) (\<lambda>a0.
     bindE
       (if isArray a0 then
          bindE (asArray h a0) (\<lambda>vs.
          bindE (mapE (asBuffer X) vs) (\<lambda>pks. Inr (1, pks)))
        else
          bindE (asBigInteger X a0) (\<lambda>b.
          bindE (toNumber X b) (\<lambda>count.
          bindE (mapE (asBuffer X) (jsSlice args 1 (1 + count))) (\<lambda>pks.
            Inr (1 + count, pks)))))
       (\<lambda>(index, publicKeys).
     bindE (arg args index) (\<lambda>ai.
     bindE
       (if isArray ai then bindE (asArray h ai) (mapE (asBuffer X))
        else mapE (asBuffer X) (jsSliceFrom args (index + 1)))
       (\<lambda>signatures.
          if length publicKeys = 0 \<or> length signatures = 0
             \<or> length signatures > length publicKeys
          then Inl InvalidCheckMultisigArgumentsError
          else opResult h context
                 [BooleanStackItem
                    (checkMultisigLoop (verify X) (message (scriptContainer (init context)))
                       signatures publicKeys 0 0 True)] []))))"

definition CHECKMULTISIG :: "externals \<Rightarrow> heap \<Rightarrow> ExecutionContext \<Rightarrow> error + Op" where
  "CHECKMULTISIG X h contextIn =
     bindE
       (case stackAt (stack contextIn) 0 of
          None \<Rightarrow> Inr 1
        | Some topItem \<Rightarrow>
            if isArray topItem then Inr 1
            else bindE (asBigInteger X topItem) (\<lambda>b.
                 bindE (toNumber X b) (\<lambda>count.
                   if count \<le> 0 then Inl InvalidCheckMultisigArgumentsError
                   else Inr (1 + count))))
       (\<lambda>in1.
     bindE
       (case stackAt (stack contextIn) in1 of
          None \<Rightarrow> Inr (in1 + 1)
        | Some nextItem \<Rightarrow>
            if isArray nextItem then Inr (in1 + 1)
            else bindE (asBigInteger X nextItem) (\<lambda>b.
                 bindE (toNumber X b) (\<lambda>count.
                   if count < 0 then Inl InvalidCheckMultisigArgumentsError
                   else Inr (in1 + (1 + count)))))
       (\<lambda>in2.
          Inr (createOp ((opArgs ''CHECKMULTISIG'' (CHECKMULTISIG_invoke X))
                 \<lparr> a_in := Some in2, a_out := Some 1 \<rparr>) contextIn)))"

subsection \<open>Collections\<close>

definition PACK_invoke :: OpInvoke where
  "PACK_invoke h context args argsAlt =
     (let (h', a) = alloc h (jsSliceFrom args 1)
      in opResult h' context [ArrayStackItem a] [])"

definition PACK :: "externals \<Rightarrow> heap \<Rightarrow> ExecutionContext \<Rightarrow> error + Op" where
  "PACK X h contextIn =
     bindE
       (case stackAt (stack contextIn) 0 of
          None \<Rightarrow> Inr 1
        | Some topItem \<Rightarrow>
            bindE (asBigInteger X topItem) (\<lambda>b.
            bindE (toNumber X b) (\<lambda>n.
              if 1 + n < 0 then Inl InvalidPackCountError else Inr (1 + n))))
       (\<lambda>in1.
          Inr (createOp ((opArgs ''PACK'' PACK_invoke)
                 \<lparr> a_in := Some in1, a_out := Some 1 \<rparr>) contextIn))"

text \<open>
  The loop of \<open>UNPACK\<close>, \<open>for (i = arr.length - 1; i >= 0; i -= 1) results.push(arr[i])\<close>;
  the counter of \<open>unpackLoop\<close> is \<open>i + 1\<close>.
\<close>

fun unpackLoop :: "StackItem list \<Rightarrow> nat \<Rightarrow> StackItem list \<Rightarrow> StackItem list" where
  "unpackLoop arr 0 res = res"
| "unpackLoop arr (Suc i) res = unpackLoop arr i (res @ [arr ! i])"

definition UNPACK_invoke :: OpInvoke where
  "UNPACK_invoke h context args argsAlt =
     bindE (arg args 0) (\<lambda>a0.
     bindE (asArray h a0) (\<lambda>arr.
       opResult h context
         (unpackLoop arr (length arr) [] @ [IntegerStackItem (int (length arr))]) []))"

definition UNPACK :: "heap \<Rightarrow> ExecutionContext \<Rightarrow> error + Op" where
  "UNPACK h contextIn =
     bindE
       (case stackAt (stack contextIn) 0 of
          None \<Rightarrow> Inr 1
        | Some topItem \<Rightarrow> bindE (asArray h topItem) (\<lambda>arr. Inr (1 + int (length arr))))
       (\<lambda>out1.
          Inr (createOp ((opArgs ''UNPACK'' UNPACK_invoke)
                 \<lparr> a_in := Some 1, a_out := Some out1 \<rparr>) contextIn))"

text \<open>
  Modelled from the spec: \<open>StructStackItem.clone\<close> is not under src/. The spec calls it a
  deep copy made at the moment of \<open>SETITEM\<close>, with arrays retaining their identity: the
  clone is a new struct whose slots hold clones of the structs in the slots of the
  original and every other item as it is. The recursion is bounded by the depth the
  JavaScript call stack allows (\<open>fuel\<close>); beyond it the engine throws a \<open>RangeError\<close>.
\<close>

fun cloneItems ::
  "(heap \<Rightarrow> addr \<Rightarrow> error + heap \<times> addr) \<Rightarrow> heap \<Rightarrow> StackItem list
     \<Rightarrow> error + heap \<times> StackItem list" where
  "cloneItems rec h [] = Inr (h, [])"
| "cloneItems rec h (StructStackItem b # xs) =
     bindE (rec h b) (\<lambda>(h1, b').
     bindE (cloneItems rec h1 xs) (\<lambda>(h2, ys). Inr (h2, StructStackItem b' # ys)))"
| "cloneItems rec h (x # xs) =
     bindE (cloneItems rec h xs) (\<lambda>(h2, ys). Inr (h2, x # ys))"

primrec clone :: "nat \<Rightarrow> heap \<Rightarrow> addr \<Rightarrow> error + heap \<times> addr" where
  "clone 0 h a = Inl RangeError"
| "clone (Suc fuel) h a =
     (if a < length h then
        bindE (cloneItems (clone fuel) h (h ! a)) (\<lambda>(h1, ys). Inr (alloc h1 ys))
      else Inl TypeError)"

text \<open>
  \<open>SETITEM\<close>: \<open>value[index] = newItem\<close> writes into the element list of the array object
  itself. \<open>callDepth\<close> is the bound on the recursion of \<open>clone\<close>.
\<close>

definition SETITEM_invoke :: "externals \<Rightarrow> nat \<Rightarrow> OpInvoke" where
  "SETITEM_invoke X callDepth h context args argsAlt =
     bindE (arg args 0) (\<lambda>a0.
     bindE
       (case a0 of
          StructStackItem s \<Rightarrow>
            bindE (clone callDepth h s) (\<lambda>(h1, s'). Inr (h1, StructStackItem s'))
        | _ \<Rightarrow> Inr (h, a0))
       (\<lambda>(h1, newItem).
     bindE (arg args 1) (\<lambda>a1.
     bindE (asBigInteger X a1) (\<lambda>b.
     bindE (toNumber X b) (\<lambda>index.
     bindE (arg args 2) (\<lambda>a2.
     bindE (arrayRef a2) (\<lambda>d.
       if d < length h1 then
         if index < 0 \<or> index \<ge> int (length (h1 ! d)) then Inl InvalidSetItemIndexError
         else opResult (h1 [d := (h1 ! d) [nat index := newItem]]) context [] []
       else Inl TypeError)))))))"

definition SETITEM :: "externals \<Rightarrow> nat \<Rightarrow> ExecutionContext \<Rightarrow> Op" where
  "SETITEM X callDepth =
     createOp ((opArgs ''SETITEM'' (SETITEM_invoke X callDepth)) \<lparr> a_in := Some 3 \<rparr>)"

subsection \<open>The dispatch table and lookupOp\<close>

text \<open>
  \<open>OPCODE_PAIRS\<close>, restricted to the opcodes embedded above; \<open>OPCODES\<close> is the object
  built from the pairs. The names \<open>PUSH1\<close> to \<open>PUSH16\<close> are \<open>`PUSH${idx - 0x50}`\<close>.
\<close>

definition decimal :: "nat \<Rightarrow> string" where
  "decimal n =
     (if n < 10 then [char_of (48 + n)]
      else [char_of (48 + n div 10), char_of (48 + n mod 10)])"

type_synonym CreateOp = "heap \<Rightarrow> ExecutionContext \<Rightarrow> error + Op"

definition static :: "(ExecutionContext \<Rightarrow> Op) \<Rightarrow> CreateOp" where
  "static create h context = Inr (create context)"

definition OPCODE_PAIRS :: "externals \<Rightarrow> nat \<Rightarrow> (nat \<times> CreateOp) list" where
  "OPCODE_PAIRS X callDepth =
     [(0x00, static PUSH0),
      (0x4F, static (pushNumber ''PUSHM1'' (- 1)))]
     @ map (\<lambda>idx. (idx, static (pushNumber (''PUSH'' @ decimal (idx - 0x50)) (int idx - 0x50))))
         [0x51 ..< 0x61]
     @ [(0x61, static NOP),
        (0x62, static (JMP X)),
        (0x63, static (jump X ''JMPIF'' (Some True))),
        (0x64, static (jump X ''JMPIFNOT'' (Some False))),
        (0x66, static RET),
        (0x76, static DUP),
        (0x77, static NIP),
        (0x78, static OVER),
        (0x7B, static ROT),
        (0x7C, static SWAP),
        (0x7D, static TUCK),
        (0xAC, static (CHECKSIG X)),
        (0xAE, CHECKMULTISIG X),
        (0xC1, PACK X),
        (0xC2, UNPACK),
        (0xC4, static (SETITEM X callDepth))]"

definition OPCODES :: "externals \<Rightarrow> nat \<Rightarrow> nat \<Rightarrow> CreateOp option" where
  "OPCODES X callDepth = map_of (OPCODE_PAIRS X callDepth)"

text \<open>
  \<open>OPCODE_TO_BYTECODE\<close> is the inverse of the table: \<open>PUSH16\<close> is the byte named
  \<open>PUSH16\<close> there (\<open>0x60\<close>), \<open>RET\<close> is \<open>0x66\<close>.
\<close>

definition OPCODE_TO_BYTECODE_PUSH16 :: nat where
  "OPCODE_TO_BYTECODE_PUSH16 = 0x60"

definition OPCODE_TO_BYTECODE_RET :: nat where
  "OPCODE_TO_BYTECODE_RET = 0x66"

text \<open>
  \<open>lookupOp\<close> reads the property \<open>context.PushOnly\<close>. The type \<open>ExecutionContext\<close> is an
  exact object type whose field is \<open>pushOnly\<close>; a context has no property \<open>PushOnly\<close>, so
  the read gives \<open>undefined\<close> (\<open>None\<close>), which is falsy.
\<close>

definition PushOnly :: "ExecutionContext \<Rightarrow> bool option" where
  "PushOnly context = None"

definition truthy :: "bool option \<Rightarrow> bool" where
  "truthy v = (case v of None \<Rightarrow> False | Some b \<Rightarrow> b)"

definition lookupOp :: "(nat \<Rightarrow> CreateOp option) \<Rightarrow> heap \<Rightarrow> ExecutionContext \<Rightarrow> error + Op" where
  "lookupOp table h context =
     (case codeAt (code context) (pc context) of
        None \<Rightarrow> Inl UnknownOpError
      | Some opCode \<Rightarrow>
          (case table opCode of
             None \<Rightarrow> Inl UnknownOpError
           | Some create \<Rightarrow>
               if opCode > OPCODE_TO_BYTECODE_PUSH16
                  \<and> opCode \<noteq> OPCODE_TO_BYTECODE_RET
                  \<and> truthy (PushOnly context)
               then Inl (PushOnlyError opCode)
               else create h (context \<lparr> pc := pc context + 1 \<rparr>)))"

text \<open>
  Modelled from the spec: the engine's dispatch of a decoded op is not under src/. Of the
  per-step sequence of section 4.3 this is the underflow check (step 2) and step 6, pop
  args, call invoke, push results; the gas, depth and size checks of steps 3 to 5 are left
  out. Index 0 of a stack is its top, as the op creators read \<open>stack[0]\<close>; the results
  are pushed one after the other, so that the last result ends on top (the order in which
  \<open>SWAP\<close>, \<open>ROT\<close> and \<open>TUCK\<close> list their results).
\<close>

definition runOp :: "heap \<Rightarrow> Op \<Rightarrow> error + (heap \<times> ExecutionContext)" where
  "runOp h op =
     (let context = op_context op;
          stk = stack context;
          stkAlt = stackAlt context
      in if int (length stk) < op_in op \<or> int (length stkAlt) < op_inAlt op
         then Inl StackUnderflowError
         else bindE
           (op_invoke op h
              (context \<lparr> stack := drop (nat (op_in op)) stk,
                         stackAlt := drop (nat (op_inAlt op)) stkAlt \<rparr>)
              (take (nat (op_in op)) stk) (take (nat (op_inAlt op)) stkAlt))
           (\<lambda>(h', r).
              Inr (h', (res_context r)
                 \<lparr> stack := rev (results r) @ stack (res_context r),
                   stackAlt := rev (resultsAlt r) @ stackAlt (res_context r) \<rparr>)))"

section \<open>System calls\<close>

text \<open>\<open>createSysCall\<close> has the body of \<open>createOp\<close>; a \<open>SysCall\<close> has the fields of an \<open>Op\<close>.\<close>

definition createSysCall :: "OpArgs \<Rightarrow> ExecutionContext \<Rightarrow> Op" where
  "createSysCall a context =
     \<lparr> op_name = a_name a,
       op_in = orZero (a_in a),
       op_inAlt = orZero (a_inAlt a),
       op_out = orZero (a_out a),
       op_outAlt = orZero (a_outAlt a),
       op_modify = orZero (a_modify a),
       op_modifyAlt = orZero (a_modifyAlt a),
       op_invocation = orZero (a_invocation a),
       op_array = orZero (a_array a),
       op_item = orZero (a_item a),
       op_fee = orZero (a_fee a),
       op_invoke = a_invoke a,
       op_context = context \<rparr>"

definition MAX_VOTES :: nat where
  "MAX_VOTES = 1024"

subsection \<open>Hashes as hexadecimal keys\<close>

text \<open>
  \<open>uInt160ToHex\<close> and \<open>uInt256ToHex\<close> of \<open>common\<close>:
  \<open>add0x(utils.reverse(value).toString('hex'))\<close>.
\<close>

definition hexDigit :: "nat \<Rightarrow> char" where
  "hexDigit n = ''0123456789abcdef'' ! n"

definition toHex :: "Buffer \<Rightarrow> string" where
  "toHex buf = concat (map (\<lambda>b. [hexDigit (unat b div 16), hexDigit (unat b mod 16)]) buf)"

definition add0x :: "string \<Rightarrow> string" where
  "add0x v = ''0x'' @ v"

definition uInt160ToHex :: "UInt160 \<Rightarrow> UInt160Hex" where
  "uInt160ToHex v = add0x (toHex (rev v))"

definition uInt256ToHex :: "UInt256 \<Rightarrow> UInt256Hex" where
  "uInt256ToHex v = add0x (toHex (rev v))"

text \<open>\<open>uInt160Equal(a, b)\<close> is \<open>a.equals(b)\<close>: a \<open>TypeError\<close> when \<open>a\<close> is \<open>undefined\<close>.\<close>

definition uInt160Equal :: "UInt160 option \<Rightarrow> UInt160 \<Rightarrow> error + bool" where
  "uInt160Equal a b = (case a of None \<Rightarrow> Inl TypeError | Some v \<Rightarrow> Inr (v = b))"

subsection \<open>The ledger facade\<close>

text \<open>
  Modelled from the spec: the storage collections behind \<open>context.blockchain\<close> are not
  under src/ (only their interfaces \<open>ReadStorage\<close>, \<open>AddStorage\<close>, ... are). \<open>get\<close> fails
  on a missing key, \<open>tryGet\<close> returns the value or nothing; the writes of a script are
  visible to its later reads, so they are made on the map the context carries.
\<close>

definition storageGet :: "('k \<rightharpoonup> 'v) \<Rightarrow> 'k \<Rightarrow> error + 'v" where
  "storageGet m k = (case m k of None \<Rightarrow> Inl KeyNotFoundError | Some v \<Rightarrow> Inr v)"

definition tryGet :: "('k \<rightharpoonup> 'v) \<Rightarrow> 'k \<Rightarrow> 'v option" where
  "tryGet m k = m k"

subsection \<open>Promises\<close>

text \<open>
  An \<open>async\<close> function returns a promise of its outcome. \<open>await\<close> yields that outcome;
  without \<open>await\<close> the caller holds the promise itself, an object, and \<open>!p\<close> of an object
  is \<open>false\<close>.
\<close>

datatype 'a promise = Promise "error + 'a"

fun await :: "'a promise \<Rightarrow> error + 'a" where
  "await (Promise r) = r"

definition jsNot_object :: "'a promise \<Rightarrow> bool" where
  "jsNot_object p = False"

definition checkWitness :: "ExecutionContext \<Rightarrow> UInt160 \<Rightarrow> bool promise" where
  "checkWitness context h =
     Promise
       (let sc = scriptContainer (init context)
        in if containerType sc = 0x00 \<or> containerType sc = 0x01 then
             bindE (scriptHashesForVerifying sc) (\<lambda>hashes.
               Inr (uInt160ToHex h \<in> set hashes))
           else Inl InvalidScriptContainerTypeError)"

subsection \<open>Accounts\<close>

text \<open>\<open>Account.update\<close> and \<open>Account.isDeletable\<close> (\<open>neo-blockchain-core/src/Account.js\<close>).\<close>

definition Account_update ::
  "Account \<Rightarrow> bool option \<Rightarrow> ECPoint list option \<Rightarrow> (UInt256Hex \<times> int) list option \<Rightarrow> Account" where
  "Account_update this isFrozen' votes' balances' =
     \<lparr> hash = hash this,
       isFrozen = (case isFrozen' of None \<Rightarrow> isFrozen this | Some f \<Rightarrow> f),
       votes = (case votes' of None \<Rightarrow> votes this | Some v \<Rightarrow> v),
       balances = (case balances' of None \<Rightarrow> balances this | Some b \<Rightarrow> b) \<rparr>"

definition isDeletable :: "Account \<Rightarrow> bool" where
  "isDeletable this =
     (let bs = map snd (balances this)
      in \<not> isFrozen this \<and> length (votes this) = 0
         \<and> (length bs = 0 \<or> list_all (\<lambda>v. v \<le> 0) bs))"

text \<open>\<open>account.balances[asset] || utils.ZERO\<close>: a \<open>BN\<close> is an object, so only a missing key gives \<open>ZERO\<close>.\<close>

definition balanceOf :: "Account \<Rightarrow> UInt256Hex \<Rightarrow> int" where
  "balanceOf a asset = (case map_of (balances a) asset of None \<Rightarrow> 0 | Some b \<Rightarrow> b)"

definition Account_GetBalance_invoke :: OpInvoke where
  "Account_GetBalance_invoke h context args argsAlt =
     bindE (arg args 0) (\<lambda>a0.
     bindE (asAccount a0) (\<lambda>acc.
     bindE (storageGet (account (blockchain context)) (hash acc)) (\<lambda>accountState.
     bindE (arg args 1) (\<lambda>a1.
     bindE (asUInt256 a1) (\<lambda>u.
       let asset = uInt256ToHex u;
           result = balanceOf accountState asset
       in opResult h context [IntegerStackItem result] [])))))"

definition Account_GetBalance :: "ExecutionContext \<Rightarrow> Op" where
  "Account_GetBalance =
     createSysCall ((opArgs ''Neo.Account.GetBalance'' Account_GetBalance_invoke)
       \<lparr> a_in := Some 1, a_out := Some 1 \<rparr>)"

definition Account_SetVotes_invoke :: OpInvoke where
  "Account_SetVotes_invoke h context args argsAlt =
     bindE (arg args 0) (\<lambda>a0.
     bindE (asAccount a0) (\<lambda>acc.
     let address = hash acc in
     bindE (arg args 1) (\<lambda>a1.
     bindE (asArray h a1) (\<lambda>vs.
     bindE (mapE asECPoint vs) (\<lambda>votes'.
       if length votes' > MAX_VOTES then Inl TooManyVotesError
       else
         bindE (storageGet (account (blockchain context)) address) (\<lambda>account'.
           let asset = governingTokenHashHex (blockchain context);
               balance = balanceOf account' asset
           in if isFrozen account' then Inl AccountFrozenError
              else if balance = 0 \<and> length votes' > 0 then Inl NotEligibleVoteError
              else if jsNot_object (checkWitness context address) then Inl BadWitnessCheckError
              else
                (let newAccount = Account_update account' None (Some votes') None;
                     accounts1 = (account (blockchain context)) (hash account' \<mapsto> newAccount);
                     accounts2 = (if isDeletable newAccount then accounts1 (address := None)
                                  else accounts1)
                 in opResult h
                      (context \<lparr> blockchain := (blockchain context) \<lparr> account := accounts2 \<rparr> \<rparr>)
                      [] [])))))))"

definition Account_SetVotes :: "ExecutionContext \<Rightarrow> Op" where
  "Account_SetVotes =
     createSysCall ((opArgs ''Neo.Account.SetVotes'' Account_SetVotes_invoke)
       \<lparr> a_in := Some 2 \<rparr>)"

subsection \<open>Storage\<close>

definition checkStorage :: "ExecutionContext \<Rightarrow> UInt160 \<Rightarrow> error + Contract" where
  "checkStorage context h =
     bindE (storageGet (contract (blockchain context)) h) (\<lambda>c.
       if \<not> hasStorage c then Inl ContractNoStorageError else Inr c)"

definition Storage_Get_invoke :: "externals \<Rightarrow> OpInvoke" where
  "Storage_Get_invoke X h context args argsAlt =
     bindE (arg args 0) (\<lambda>a0.
     bindE (toStorageContext X context a0) (\<lambda>hash'.
     bindE (checkStorage context hash') (\<lambda>c.
     bindE (arg args 1) (\<lambda>a1.
     bindE (asBuffer X a1) (\<lambda>key.
       let item = tryGet (storageItem (blockchain context)) (hash', key);
           result = (case item of None \<Rightarrow> [] | Some v \<Rightarrow> v)
       in opResult h context [BufferStackItem result] [])))))"

definition Storage_Get :: "externals \<Rightarrow> ExecutionContext \<Rightarrow> Op" where
  "Storage_Get X =
     createSysCall ((opArgs ''Neo.Storage.Get'' (Storage_Get_invoke X))
       \<lparr> a_in := Some 2, a_out := Some 1 \<rparr>)"

subsection \<open>Contracts\<close>

text \<open>The getters \<open>hash\<close> and \<open>hashHex\<close> of \<open>Contract\<close>.\<close>

definition Contract_hash :: "externals \<Rightarrow> Contract \<Rightarrow> UInt160" where
  "Contract_hash X c = toScriptHash X (script c)"

definition Contract_hashHex :: "externals \<Rightarrow> Contract \<Rightarrow> UInt160Hex" where
  "Contract_hashHex X c = uInt160ToHex (Contract_hash X c)"

text \<open>\<open>BN.toNumber()\<close> of bn.js: an error beyond 53 bits.\<close>

definition bnToNumber :: "int \<Rightarrow> error + int" where
  "bnToNumber n =
     (if \<bar>n\<bar> < 2 ^ 53 then Inr n
      else Inl (OtherError ''Number can only safely store up to 53 bits''))"

text \<open>
  \<open>createContract\<close>; \<open>contract.add\<close> files the new contract under its own \<open>hash\<close>. The
  result carries the context with the ledger as \<open>add\<close> left it.
\<close>

definition createContract ::
  "externals \<Rightarrow> ExecutionContext \<Rightarrow> StackItem list
     \<Rightarrow> error + (ExecutionContext \<times> Contract \<times> bool)" where
  "createContract X context args =
     bindE (arg args 0) (\<lambda>a0. bindE (asBuffer X a0) (\<lambda>script'.
     bindE (arg args 1) (\<lambda>a1. bindE (asBuffer X a1) (\<lambda>ps.
     bindE (mapE (\<lambda>parameter. assertContractParameterType X (uint parameter)) ps)
       (\<lambda>parameterList'.
     bindE (arg args 2) (\<lambda>a2. bindE (asBigInteger X a2) (\<lambda>rt.
     bindE (bnToNumber rt) (\<lambda>rtn.
     bindE (assertContractParameterType X rtn) (\<lambda>returnType'.
     bindE (arg args 3) (\<lambda>a3. bindE (asBoolean X a3) (\<lambda>hasStorage'.
     bindE (arg args 4) (\<lambda>a4. bindE (asString X a4) (\<lambda>name'.
     bindE (arg args 5) (\<lambda>a5. bindE (asString X a5) (\<lambda>codeVersion'.
     bindE (arg args 6) (\<lambda>a6. bindE (asString X a6) (\<lambda>author'.
     bindE (arg args 7) (\<lambda>a7. bindE (asString X a7) (\<lambda>email'.
     bindE (arg args 8) (\<lambda>a8. bindE (asString X a8) (\<lambda>description'.
       let hash' = hash160 X script'
       in case tryGet (contract (blockchain context)) hash' of
            Some existing \<Rightarrow> Inr (context, existing, False)
          | None \<Rightarrow>
              (let new =
                     \<lparr> script = script', parameterList = parameterList',
                       returnType = returnType', hasStorage = hasStorage',
                       contractName = name', codeVersion = codeVersion', author = author',
                       email = email', description = description' \<rparr>
               in Inr (context \<lparr> blockchain := (blockchain context)
                         \<lparr> contract := (contract (blockchain context))
                              (Contract_hash X new \<mapsto> new) \<rparr> \<rparr>,
                       new, True)))))))))))))))))))))))"

text \<open>\<open>Neo.Contract.Create\<close> takes \<open>contract\<close> from the result and leaves \<open>created\<close> unread.\<close>

definition Contract_Create_invoke :: "externals \<Rightarrow> OpInvoke" where
  "Contract_Create_invoke X h context args argsAlt =
     bindE (createContract X context args) (\<lambda>(context1, contract', created).
       opResult h
         (context1 \<lparr> createdContracts :=
              (createdContracts context1) (Contract_hashHex X contract' \<mapsto> scriptHash context1) \<rparr>)
         [ContractStackItem contract'] [])"

definition Contract_Create :: "externals \<Rightarrow> ExecutionContext \<Rightarrow> Op" where
  "Contract_Create X =
     createSysCall ((opArgs ''Neo.Contract.Create'' (Contract_Create_invoke X))
       \<lparr> a_in := Some 9, a_out := Some 1 \<rparr>)"

definition Contract_GetStorageContext_invoke :: "externals \<Rightarrow> OpInvoke" where
  "Contract_GetStorageContext_invoke X h context args argsAlt =
     bindE (arg args 0) (\<lambda>a0.
     bindE (asContract a0) (\<lambda>contract'.
       let createdScriptHash = createdContracts context (Contract_hashHex X contract')
       in bindE (uInt160Equal createdScriptHash (scriptHash context)) (\<lambda>eq.
            if \<not> eq then Inl InvalidContractGetStorageContextError
            else opResult h context
                   [StorageContextStackItem (Contract_hash X contract')] [])))"

definition Contract_GetStorageContext :: "externals \<Rightarrow> ExecutionContext \<Rightarrow> Op" where
  "Contract_GetStorageContext X =
     createSysCall
       ((opArgs ''Neo.Contract.GetStorageContext'' (Contract_GetStorageContext_invoke X))
          \<lparr> a_in := Some 1, a_out := Some 1 \<rparr>)"

subsection \<open>The system call table and lookupSysCall\<close>

definition SYS_CALL_STRING_LENGTH :: nat where
  "SYS_CALL_STRING_LENGTH = 252"

definition SYSCALL_ALIASES :: "string \<rightharpoonup> string" where
  "SYSCALL_ALIASES = map_of
     [
      (''AntShares.Runtime.CheckWitness'', ''Neo.Runtime.CheckWitness''),
      (''AntShares.Runtime.Notify'', ''Neo.Runtime.Notify''),
      (''AntShares.Runtime.Log'', ''Neo.Runtime.Log''),
      (''AntShares.Blockchain.GetHeight'', ''Neo.Blockchain.GetHeight''),
      (''AntShares.Blockchain.GetHeader'', ''Neo.Blockchain.GetHeader''),
      (''AntShares.Blockchain.GetBlock'', ''Neo.Blockchain.GetBlock''),
      (''AntShares.Blockchain.GetTransaction'', ''Neo.Blockchain.GetTransaction''),
      (''AntShares.Blockchain.GetAccount'', ''Neo.Blockchain.GetAccount''),
      (''AntShares.Blockchain.GetValidators'', ''Neo.Blockchain.GetValidators''),
      (''AntShares.Blockchain.GetAsset'', ''Neo.Blockchain.GetAsset''),
      (''AntShares.Blockchain.GetContract'', ''Neo.Blockchain.GetContract''),
      (''AntShares.Header.GetHash'', ''Neo.Header.GetHash''),
      (''AntShares.Header.GetVersion'', ''Neo.Header.GetVersion''),
      (''AntShares.Header.GetPrevHash'', ''Neo.Header.GetPrevHash''),
      (''AntShares.Header.GetMerkleRoot'', ''Neo.Header.GetMerkleRoot''),
      (''AntShares.Header.GetTimestamp'', ''Neo.Header.GetTimestamp''),
      (''AntShares.Header.GetConsensusData'', ''Neo.Header.GetConsensusData''),
      (''AntShares.Header.GetNextConsensus'', ''Neo.Header.GetNextConsensus''),
      (''AntShares.Block.GetTransactionCount'', ''Neo.Block.GetTransactionCount''),
      (''AntShares.Block.GetTransactions'', ''Neo.Block.GetTransactions''),
      (''AntShares.Block.GetTransaction'', ''Neo.Block.GetTransaction''),
      (''AntShares.Transaction.GetHash'', ''Neo.Transaction.GetHash''),
      (''AntShares.Transaction.GetType'', ''Neo.Transaction.GetType''),
      (''AntShares.Transaction.GetAttributes'', ''Neo.Transaction.GetAttributes''),
      (''AntShares.Transaction.GetInputs'', ''Neo.Transaction.GetInputs''),
      (''AntShares.Transaction.GetOutputs'', ''Neo.Transaction.GetOutputs''),
      (''AntShares.Transaction.GetReferences'', ''Neo.Transaction.GetReferences''),
      (''AntShares.Attribute.GetUsage'', ''Neo.Attribute.GetUsage''),
      (''AntShares.Attribute.GetData'', ''Neo.Attribute.GetData''),
      (''AntShares.Input.GetHash'', ''Neo.Input.GetHash''),
      (''AntShares.Input.GetIndex'', ''Neo.Input.GetIndex''),
      (''AntShares.Output.GetAssetId'', ''Neo.Output.GetAssetId''),
      (''AntShares.Output.GetValue'', ''Neo.Output.GetValue''),
      (''AntShares.Output.GetScriptHash'', ''Neo.Output.GetScriptHash''),
      (''AntShares.Account.GetScriptHash'', ''Neo.Account.GetScriptHash''),
      (''AntShares.Account.GetVotes'', ''Neo.Account.GetVotes''),
      (''AntShares.Account.GetBalance'', ''Neo.Account.GetBalance''),
      (''AntShares.Asset.GetAssetId'', ''Neo.Asset.GetAssetId''),
      (''AntShares.Asset.GetAssetType'', ''Neo.Asset.GetAssetType''),
      (''AntShares.Asset.GetAmount'', ''Neo.Asset.GetAmount''),
      (''AntShares.Asset.GetAvailable'', ''Neo.Asset.GetAvailable''),
      (''AntShares.Asset.GetPrecision'', ''Neo.Asset.GetPrecision''),
      (''AntShares.Asset.GetOwner'', ''Neo.Asset.GetOwner''),
      (''AntShares.Asset.GetAdmin'', ''Neo.Asset.GetAdmin''),
      (''AntShares.Asset.GetIssuer'', ''Neo.Asset.GetIssuer''),
      (''AntShares.Contract.GetScript'', ''Neo.Contract.GetScript''),
      (''AntShares.Storage.GetContext'', ''Neo.Storage.GetContext''),
      (''AntShares.Storage.Get'', ''Neo.Storage.Get''),
      (''AntShares.Account.SetVotes'', ''Neo.Account.SetVotes''),
      (''AntShares.Validator.Register'', ''Neo.Validator.Register''),
      (''AntShares.Asset.Create'', ''Neo.Asset.Create''),
      (''AntShares.Asset.Renew'', ''Neo.Asset.Renew''),
      (''AntShares.Contract.Create'', ''Neo.Contract.Create''),
      (''AntShares.Contract.Migrate'', ''Neo.Contract.Migrate''),
      (''AntShares.Contract.GetStorageContext'', ''Neo.Contract.GetStorageContext''),
      (''AntShares.Contract.Destroy'', ''Neo.Contract.Destroy''),
      (''AntShares.Storage.Put'', ''Neo.Storage.Put''),
      (''AntShares.Storage.Delete'', ''Neo.Storage.Delete'')]"

text \<open>\<open>SYSCALLS\<close>, restricted to the system calls embedded above.\<close>

definition SYSCALLS :: "externals \<Rightarrow> string \<rightharpoonup> (ExecutionContext \<Rightarrow> Op)" where
  "SYSCALLS X = map_of
     [(''Neo.Account.GetBalance'', Account_GetBalance),
      (''Neo.Storage.Get'', Storage_Get X),
      (''Neo.Account.SetVotes'', Account_SetVotes),
      (''Neo.Contract.Create'', Contract_Create X),
      (''Neo.Contract.GetStorageContext'', Contract_GetStorageContext X)]"

text \<open>
  \<open>BinaryReader.readVarBytesLE\<close> and \<open>utils.toASCII\<close> are not under src/; \<open>lookupSysCall\<close>
  takes them as parameters. The reader is given the code, the position and the greatest
  length allowed, and returns the bytes read with the position behind them
  (\<open>reader.index\<close>).
\<close>

type_synonym VarBytesReader = "Buffer \<Rightarrow> int \<Rightarrow> nat \<Rightarrow> error + Buffer \<times> int"

definition lookupSysCall ::
  "VarBytesReader \<Rightarrow> (Buffer \<Rightarrow> string) \<Rightarrow> (string \<rightharpoonup> (ExecutionContext \<Rightarrow> Op))
     \<Rightarrow> ExecutionContext \<Rightarrow> error + Op" where
  "lookupSysCall readVarBytesLE toASCII table context =
     bindE (readVarBytesLE (code context) (pc context) SYS_CALL_STRING_LENGTH)
       (\<lambda>(sysCallBytes, index).
          let sysCallName = toASCII sysCallBytes;
              canonicalName = (case SYSCALL_ALIASES sysCallName of
                                 Some n \<Rightarrow> n | None \<Rightarrow> sysCallName)
          in case table canonicalName of
               None \<Rightarrow> Inl (UnknownSysCallError sysCallName)
             | Some createCall \<Rightarrow> Inr (createCall (context \<lparr> pc := index \<rparr>)))"

text \<open>
  The entry \<open>0x68\<close> of \<open>OPCODE_PAIRS\<close>: the op of the system call found, renamed
  \<open>SYSCALL\<close>. \<open>OPCODES_with_SYSCALL\<close> is the table with that entry.
\<close>

definition SYSCALL :: "(ExecutionContext \<Rightarrow> error + Op) \<Rightarrow> CreateOp" where
  "SYSCALL lookup h context =
     bindE (lookup context) (\<lambda>sysCall.
       Inr \<lparr> op_name = ''SYSCALL'',
             op_in = op_in sysCall,
             op_inAlt = op_inAlt sysCall,
             op_out = op_out sysCall,
             op_outAlt = op_outAlt sysCall,
             op_modify = op_modify sysCall,
             op_modifyAlt = op_modifyAlt sysCall,
             op_invocation = op_invocation sysCall,
             op_array = op_array sysCall,
             op_item = op_item sysCall,
             op_fee = op_fee sysCall,
             op_invoke = op_invoke sysCall,
             op_context = op_context sysCall \<rparr>)"

definition OPCODES_with_SYSCALL ::
  "externals \<Rightarrow> nat \<Rightarrow> (ExecutionContext \<Rightarrow> error + Op) \<Rightarrow> nat \<Rightarrow> CreateOp option" where
  "OPCODES_with_SYSCALL X callDepth lookup = (OPCODES X callDepth) (0x68 \<mapsto> SYSCALL lookup)"

section \<open>Notions for the statements about cloning\<close>

text \<open>
  The structs nested in the struct at address \<open>a\<close>: the struct itself and, at any depth,
  the structs held in the slots of one of them.
\<close>

inductive structReach :: "heap \<Rightarrow> addr \<Rightarrow> addr \<Rightarrow> bool" for h :: heap and a :: addr where
  here: "structReach h a a"
| inside: "structReach h a b \<Longrightarrow> b < length h \<Longrightarrow> StructStackItem c \<in> set (h ! b)
           \<Longrightarrow> structReach h a c"

text \<open>
  \<open>cloneOf xs ys\<close>: \<open>ys\<close> has the slots of \<open>xs\<close>, with a struct wherever \<open>xs\<close> has one and
  the very same item everywhere else.
\<close>

fun isStruct :: "StackItem \<Rightarrow> bool" where
  "isStruct (StructStackItem a) = True"
| "isStruct _ = False"

definition cloneOf :: "StackItem list \<Rightarrow> StackItem list \<Rightarrow> bool" where
  "cloneOf xs ys = list_all2 (\<lambda>x y. if isStruct x then isStruct y else y = x) xs ys"

text \<open>
  From address \<open>n\<close> on, the structs held in the heap's cells lie at addresses from \<open>n\<close> on
  themselves; a cloning function is good when it only appends to the heap and returns a
  new address with that property.
\<close>

definition freshClosed :: "nat \<Rightarrow> heap \<Rightarrow> bool" where
  "freshClosed n h =
     (\<forall>b. n \<le> b \<and> b < length h \<longrightarrow> (\<forall>c. StructStackItem c \<in> set (h ! b) \<longrightarrow> n \<le> c \<and> c < length h))"

definition goodClone :: "(heap \<Rightarrow> addr \<Rightarrow> error + heap \<times> addr) \<Rightarrow> bool" where
  "goodClone rec =
     (\<forall>h a h1 a'. rec h a = Inr (h1, a')
        \<longrightarrow> (\<exists>ext. h1 = h @ ext) \<and> length h \<le> a' \<and> a' < length h1
            \<and> freshClosed (length h) h1)"

text \<open>The item \<open>SETITEM\<close> stores: the clone of a struct, any other item itself.\<close>

definition storedItem :: "nat \<Rightarrow> heap \<Rightarrow> StackItem \<Rightarrow> error + heap \<times> StackItem" where
  "storedItem lim h v =
     (case v of
        StructStackItem s \<Rightarrow>
          bindE (clone lim h s) (\<lambda>(h1, s'). Inr (h1, StructStackItem s'))
      | _ \<Rightarrow> Inr (h, v))"

text \<open>
  \<open>nestedWithin n h a\<close>: the struct at \<open>a\<close> is live and the structs in it nest fewer than
  \<open>n\<close> levels deep, which is the depth of recursion that cloning it takes.
\<close>

primrec nestedWithin :: "nat \<Rightarrow> heap \<Rightarrow> addr \<Rightarrow> bool" where
  "nestedWithin 0 h a = False"
| "nestedWithin (Suc n) h a =
     (a < length h
      \<and> list_all (\<lambda>x. case x of StructStackItem b \<Rightarrow> nestedWithin n h b | _ \<Rightarrow> True) (h ! a))"

definition nestedItem :: "nat \<Rightarrow> heap \<Rightarrow> StackItem \<Rightarrow> bool" where
  "nestedItem n h x = (case x of StructStackItem b \<Rightarrow> nestedWithin n h b | _ \<Rightarrow> True)"

text \<open>
  What is read through an item, down to depth \<open>n\<close>. \<open>structValue\<close> follows the references
  to structs and takes every other item, a reference to an array included, as it is;
  \<open>observe\<close> follows the references to arrays as well. \<open>Cut\<close> stands for what lies deeper
  than \<open>n\<close> and for a reference to no object.
\<close>

datatype view = Atom StackItem | StructView "view list" | ArrayView "view list" | Cut

primrec structValue :: "nat \<Rightarrow> heap \<Rightarrow> StackItem \<Rightarrow> view" where
  "structValue 0 h x = (case x of StructStackItem a \<Rightarrow> Cut | _ \<Rightarrow> Atom x)"
| "structValue (Suc n) h x =
     (case x of
        StructStackItem a \<Rightarrow>
          (if a < length h then StructView (map (structValue n h) (h ! a)) else Cut)
      | _ \<Rightarrow> Atom x)"

primrec observe :: "nat \<Rightarrow> heap \<Rightarrow> StackItem \<Rightarrow> view" where
  "observe 0 h x = (if isArray x then Cut else Atom x)"
| "observe (Suc n) h x =
     (case x of
        StructStackItem a \<Rightarrow>
          (if a < length h then StructView (map (observe n h) (h ! a)) else Cut)
      | ArrayStackItem a \<Rightarrow>
          (if a < length h then ArrayView (map (observe n h) (h ! a)) else Cut)
      | _ \<Rightarrow> Atom x)"

text \<open>
  A cloning function is deep for depth \<open>f\<close> when it returns on every struct nested within
  \<open>f\<close>, with a struct that reads as the original does.
\<close>

definition deepClone :: "nat \<Rightarrow> (heap \<Rightarrow> addr \<Rightarrow> error + heap \<times> addr) \<Rightarrow> bool" where
  "deepClone f rec =
     (\<forall>h b. nestedWithin f h b
        \<longrightarrow> (\<exists>h1 b'. rec h b = Inr (h1, b')
               \<and> (\<forall>n. structValue n h1 (StructStackItem b') = structValue n h (StructStackItem b))))"

section \<open>Sample values\<close>

text \<open>
  Concrete stand-ins for the parameters, used to run the definitions: coercions that
  accept the obvious variant, a \<open>verify\<close> that accepts the signature made of the message
  followed by the key, and identity hashes.
\<close>

definition sampleExternals :: externals where
  "sampleExternals =
     \<lparr> asBuffer = (\<lambda>v. case v of BufferStackItem b \<Rightarrow> Inr b | _ \<Rightarrow> Inl InvalidTypeError),
       asBigInteger = (\<lambda>v. case v of IntegerStackItem n \<Rightarrow> Inr n
                                    | BooleanStackItem b \<Rightarrow> Inr (if b then 1 else 0)
                                    | _ \<Rightarrow> Inl InvalidTypeError),
       asBoolean = (\<lambda>v. case v of BooleanStackItem b \<Rightarrow> Inr b
                                 | IntegerStackItem n \<Rightarrow> Inr (n \<noteq> 0)
                                 | _ \<Rightarrow> Inl InvalidTypeError),
       asString = (\<lambda>v. case v of BufferStackItem b \<Rightarrow> Inr (map (\<lambda>w. char_of (unat w)) b)
                                | _ \<Rightarrow> Inl InvalidTypeError),
       toNumber = (\<lambda>n. Inr n),
       toStorageContext = (\<lambda>context v. case v of StorageContextStackItem u \<Rightarrow> Inr u
                                                | _ \<Rightarrow> Inl InvalidTypeError),
       assertContractParameterType = (\<lambda>n. Inr n),
       verify = (\<lambda>msg signature publicKey. Inr (signature = msg @ publicKey)),
       hash160 = (\<lambda>b. b),
       toScriptHash = (\<lambda>b. b) \<rparr>"

definition sampleAccount :: Account where
  "sampleAccount =
     \<lparr> hash = [0xAA], isFrozen = False, votes = [], balances = [(''0x01'', 5)] \<rparr>"

definition sampleContract :: Contract where
  "sampleContract =
     \<lparr> script = [0x61, 0x66], parameterList = [], returnType = 0, hasStorage = True,
       contractName = ''c'', codeVersion = ''1'', author = ''a'', email = ''e'',
       description = ''d'' \<rparr>"

definition sampleContext :: ExecutionContext where
  "sampleContext =
     \<lparr> blockchain =
         \<lparr> account = [[0xAA] \<mapsto> sampleAccount],
           contract = [[0x61, 0x66] \<mapsto> sampleContract],
           storageItem = [([0x61, 0x66], [0x01]) \<mapsto> [0x2A]],
           governingTokenHashHex = ''0x01'' \<rparr>,
       init = \<lparr> scriptContainer =
                  \<lparr> containerType = 0, message = [0x01, 0x02],
                    scriptHashesForVerifying = Inr [] \<rparr>,
                triggerType = 0x10 \<rparr>,
       code = [0x61],
       pushOnly = True,
       scriptHash = [0x07],
       callingScriptHash = None,
       entryScriptHash = [0x07],
       pc = 0,
       depth = 0,
       stack = [],
       stackAlt = [],
       isDone = False,
       gasLeft = 0,
       actionIndex = 0,
       createdContracts = Map.empty \<rparr>"

definition sampleCreateArgs :: "StackItem list" where
  "sampleCreateArgs =
     [BufferStackItem [0x61, 0x66], BufferStackItem [], IntegerStackItem 0,
      BooleanStackItem True, BufferStackItem [], BufferStackItem [], BufferStackItem [],
      BufferStackItem [], BufferStackItem []]"

text \<open>
  A heap with a struct nested in a struct and an array, and the heaps after storing the
  outer struct into the array and after a later write into the inner struct.
\<close>

definition sampleHeap :: heap where
  "sampleHeap =
     [[IntegerStackItem 5], [StructStackItem 0, BooleanStackItem True], [BooleanStackItem False]]"

definition sampleHeap1 :: heap where
  "sampleHeap1 =
     [[IntegerStackItem 5], [StructStackItem 0, BooleanStackItem True], [StructStackItem 4],
      [IntegerStackItem 5], [StructStackItem 3, BooleanStackItem True]]"

definition sampleHeap2 :: heap where
  "sampleHeap2 =
     [[IntegerStackItem 9], [StructStackItem 0, BooleanStackItem True], [StructStackItem 4],
      [IntegerStackItem 5], [StructStackItem 3, BooleanStackItem True]]"

text \<open>A context whose code starts with an opcode byte and the two bytes of a jump offset.\<close>

definition jumpContext :: "byte \<Rightarrow> byte \<Rightarrow> byte \<Rightarrow> ExecutionContext" where
  "jumpContext opByte lo hi = sampleContext \<lparr> code := [opByte, lo, hi, 0x57, 0x66] \<rparr>"

text \<open>
  A reader of a length byte followed by that many bytes, the ASCII decoding, and a context
  whose code is the opcode \<open>SYSCALL\<close> followed by a name so written.
\<close>

definition asciiBytes :: "string \<Rightarrow> Buffer" where
  "asciiBytes s = map (\<lambda>c. of_nat (of_char c)) s"

definition sampleToASCII :: "Buffer \<Rightarrow> string" where
  "sampleToASCII b = map (\<lambda>w. char_of (unat w)) b"

definition sampleReadVarBytesLE :: VarBytesReader where
  "sampleReadVarBytesLE buf i maxLen =
     (if 0 \<le> i \<and> i < int (length buf) then
        (let n = unat (buf ! nat i)
         in if n \<le> maxLen \<and> nat i + 1 + n \<le> length buf
            then Inr (take n (drop (nat i + 1) buf), i + 1 + int n)
            else Inl RangeError)
      else Inl RangeError)"

definition sysCallContext :: "string \<Rightarrow> StackItem list \<Rightarrow> ExecutionContext" where
  "sysCallContext n stk =
     sampleContext \<lparr> code := 0x68 # of_nat (length n) # asciiBytes n, stack := stk \<rparr>"

text \<open>
  A context whose code is the opcode \<open>SETITEM\<close>; a heap with an array held in a struct, and
  the heaps after storing the struct into another array and after a later write into the
  array it holds.
\<close>

definition setitemContext :: "StackItem list \<Rightarrow> ExecutionContext" where
  "setitemContext stk = sampleContext \<lparr> code := [0xC4], stack := stk \<rparr>"

definition sharedHeap :: heap where
  "sharedHeap = [[IntegerStackItem 5], [ArrayStackItem 0], [BooleanStackItem False]]"

definition sharedHeap1 :: heap where
  "sharedHeap1 = [[IntegerStackItem 5], [ArrayStackItem 0], [StructStackItem 3], [ArrayStackItem 0]]"

definition sharedHeap2 :: heap where
  "sharedHeap2 = [[IntegerStackItem 9], [ArrayStackItem 0], [StructStackItem 3], [ArrayStackItem 0]]"

section \<open>Basic facts\<close>

lemma bindE_simps [simp]: "bindE (Inl e) f = Inl e" "bindE (Inr x) f = f x"
  by (simp_all add: bindE_def)

lemma bindE_Inr_iff: "bindE m f = Inr y \<longleftrightarrow> (\<exists>x. m = Inr x \<and> f x = Inr y)"
  by (cases m) simp_all

lemma bindE_Inl_iff: "bindE m f = Inl e \<longleftrightarrow> (m = Inl e \<or> (\<exists>x. m = Inr x \<and> f x = Inl e))"
  by (cases m) simp_all

lemma arg_Cons0 [simp]: "arg (x # xs) 0 = Inr x"
  by (simp add: arg_def)

lemma arg_single1 [simp]: "arg [x] 1 = Inl TypeError"
  by (simp add: arg_def)

lemma arg_pair1 [simp]: "arg (x # y # ys) 1 = Inr y"
  by (simp add: arg_def)

lemma arg_triple2 [simp]: "arg (x # y # z # zs) 2 = Inr z"
  by (simp add: arg_def)

lemmas createOp_simps = createOp_def opArgs_def orZero_def

lemmas createSysCall_simps = createSysCall_def opArgs_def orZero_def

lemma arg_err: "arg args i = Inl e \<Longrightarrow> e = TypeError"
  by (simp add: arg_def split: if_splits)

lemma asAccount_err: "asAccount v = Inl e \<Longrightarrow> e = InvalidTypeError"
  by (cases v) simp_all

lemma arrayRef_err: "arrayRef v = Inl e \<Longrightarrow> e = InvalidTypeError"
  by (cases v) simp_all

lemma asArray_err: "asArray h v = Inl e \<Longrightarrow> e = InvalidTypeError \<or> e = TypeError"
  by (auto simp: asArray_def bindE_Inl_iff split: if_splits dest: arrayRef_err)

lemma asECPoint_err: "asECPoint v = Inl e \<Longrightarrow> e = InvalidTypeError"
  by (cases v) simp_all

lemma mapE_asECPoint_err: "mapE asECPoint vs = Inl e \<Longrightarrow> e = InvalidTypeError"
  by (induction vs) (auto simp: bindE_Inl_iff dest: asECPoint_err)

lemma storageGet_err: "storageGet m k = Inl e \<Longrightarrow> e = KeyNotFoundError"
  by (simp add: storageGet_def split: option.splits)

section \<open>Decoding under pushOnly\<close>

text \<open>
  Claim C2. With \<open>pushOnly\<close> set, decoding an opcode above \<open>PUSH16\<close> other than \<open>RET\<close>
  should fault with a \<open>PushOnlyError\<close>. It does not: the context below has
  \<open>pushOnly = true\<close> and its code is the single byte \<open>0x61\<close> (\<open>NOP\<close>, above \<open>PUSH16\<close>
  and not \<open>RET\<close>), and \<open>lookupOp\<close> returns the \<open>NOP\<close> descriptor. The guard reads
  \<open>context.PushOnly\<close>, which no context has.
\<close>

theorem lookupOp_pushOnly_NOP:
  "pushOnly sampleContext
   \<and> codeAt (code sampleContext) (pc sampleContext) = Some 0x61
   \<and> map_sum id op_name (lookupOp (OPCODES sampleExternals 8) [] sampleContext) = Inr ''NOP''"
  by (simp add: lookupOp_def sampleContext_def codeAt_def OPCODES_def OPCODE_PAIRS_def
       static_def NOP_def createOp_simps OPCODE_TO_BYTECODE_PUSH16_def
       OPCODE_TO_BYTECODE_RET_def truthy_def PushOnly_def)

text \<open>
  The check of \<open>lookupOp\<close> itself never fires, whatever the table: a \<open>PushOnlyError\<close>
  could only come out of an op creator.
\<close>

lemma lookupOp_PushOnlyError_from_create:
  "lookupOp table h ctx = Inl (PushOnlyError n)
   \<Longrightarrow> \<exists>opCode create. table opCode = Some create
         \<and> create h (ctx \<lparr> pc := pc ctx + 1 \<rparr>) = Inl (PushOnlyError n)"
  by (auto simp: lookupOp_def truthy_def PushOnly_def split: option.splits if_splits)

section \<open>Results against the declared out\<close>

text \<open>
  Claim C4. An op's \<open>invoke\<close> should return at most \<open>out\<close> results. \<open>OVER\<close> declares
  \<open>in: 2\<close> and no \<open>out\<close>, so its \<open>out\<close> is 0, and on its two arguments it returns the
  three results \<open>[args[1], args[0], args[1]]\<close>. Its siblings \<open>DUP\<close> and \<open>TUCK\<close> declare
  the \<open>out\<close> they return.
\<close>

theorem OVER_results_exceed_out:
  "op_in (OVER c) = 2 \<and> op_out (OVER c) = 0
   \<and> op_invoke (OVER c) h ctx [a, b] [] = opResult h ctx [b, a, b] []
   \<and> int (length [b, a, b]) > op_out (OVER c)"
  by (simp add: OVER_def createOp_simps)

lemma DUP_TUCK_results_within_out:
  "op_out (DUP c) = 2 \<and> op_invoke (DUP c) h ctx [a] [] = opResult h ctx [a, a] []
   \<and> op_out (TUCK c) = 3 \<and> op_invoke (TUCK c) h ctx [a, b] [] = opResult h ctx [a, b, a] []"
  by (simp add: DUP_def TUCK_def createOp_simps)

section \<open>Neo.Account.GetBalance\<close>

text \<open>
  Claim C10. \<open>Neo.Account.GetBalance\<close> declares \<open>in = 1\<close> and reads \<open>args[1]\<close>: with the
  one argument of its declared arity every invocation faults, and when that argument is
  an account the ledger knows, the fault is the \<open>TypeError\<close> of the missing \<open>args[1]\<close>.
\<close>

theorem GetBalance_never_returns:
  "op_in (Account_GetBalance c) = 1
   \<and> (int (length args) = op_in (Account_GetBalance c)
        \<longrightarrow> (\<exists>e. op_invoke (Account_GetBalance c) h ctx args argsAlt = Inl e))
   \<and> (account (blockchain ctx) (hash acc) = Some st
        \<longrightarrow> op_invoke (Account_GetBalance c) h ctx [AccountStackItem acc] argsAlt
            = Inl TypeError)"
proof -
  have in1: "op_in (Account_GetBalance c) = 1"
    by (simp add: Account_GetBalance_def createSysCall_simps)
  have inv: "op_invoke (Account_GetBalance c) = Account_GetBalance_invoke"
    by (simp add: Account_GetBalance_def createSysCall_simps)
  have faults: "\<exists>e. Account_GetBalance_invoke h ctx [a0] argsAlt = Inl e" for a0
  proof (cases "asAccount a0")
    case (Inl e)
    then show ?thesis by (simp add: Account_GetBalance_invoke_def)
  next
    case (Inr acc')
    then show ?thesis
      by (cases "storageGet (account (blockchain ctx)) (hash acc')")
         (simp_all add: Account_GetBalance_invoke_def)
  qed
  have one: "int (length args) = 1 \<Longrightarrow> \<exists>a0. args = [a0]"
    by (cases args) auto
  have missing: "account (blockchain ctx) (hash acc) = Some st
      \<Longrightarrow> Account_GetBalance_invoke h ctx [AccountStackItem acc] argsAlt = Inl TypeError"
    by (simp add: Account_GetBalance_invoke_def storageGet_def)
  show ?thesis
    using in1 inv faults one missing by metis
qed

theorem GetBalance_never_returns_witness:
  "int (length [AccountStackItem sampleAccount]) = op_in (Account_GetBalance sampleContext)
   \<and> account (blockchain sampleContext) (hash sampleAccount) = Some sampleAccount
   \<and> op_invoke (Account_GetBalance sampleContext) [] sampleContext
        [AccountStackItem sampleAccount] [] = Inl TypeError"
  using GetBalance_never_returns [of sampleContext "[AccountStackItem sampleAccount]" "[]"
      sampleContext "[]" sampleAccount sampleAccount]
  by (simp add: sampleContext_def sampleAccount_def)

section \<open>Neo.Account.SetVotes\<close>

lemma SetVotes_invoke_errors:
  "Account_SetVotes_invoke h ctx args argsAlt = Inl e
   \<Longrightarrow> e \<in> {TypeError, InvalidTypeError, TooManyVotesError, KeyNotFoundError,
            AccountFrozenError, NotEligibleVoteError}"
  unfolding Account_SetVotes_invoke_def Let_def
  by (auto simp: bindE_Inl_iff jsNot_object_def opResult_def split: if_splits
      dest: arg_err asAccount_err asArray_err mapE_asECPoint_err storageGet_err)

text \<open>
  Claim C3. \<open>Neo.Account.SetVotes\<close> should fault with \<open>BadWitnessCheckError\<close> when the
  account's hash is not among the script hashes for verifying. It never does: the guard
  negates the promise that \<open>checkWitness\<close> returns, not its outcome. In the run below the
  witness set is empty, so the awaited check is \<open>false\<close>, the account is not frozen and
  holds the governing token, and the call returns with the account's votes replaced.
\<close>

theorem SetVotes_unwitnessed:
  "op_invoke (Account_SetVotes c) h ctx args argsAlt \<noteq> Inl BadWitnessCheckError
   \<and> await (checkWitness sampleContext (hash sampleAccount)) = Inr False
   \<and> map_sum id (\<lambda>(h', r). map_option votes (account (blockchain (res_context r)) [0xAA]))
       (op_invoke (Account_SetVotes sampleContext) [[ECPointStackItem [0x02]]] sampleContext
          [AccountStackItem sampleAccount, ArrayStackItem 0] [])
     = Inr (Some [[0x02]])"
proof -
  have inv: "op_invoke (Account_SetVotes c) = Account_SetVotes_invoke" for c
    by (simp add: Account_SetVotes_def createSysCall_simps)
  have never: "Account_SetVotes_invoke h ctx args argsAlt \<noteq> Inl BadWitnessCheckError"
    using SetVotes_invoke_errors [of h ctx args argsAlt BadWitnessCheckError] by auto
  have unwitnessed: "await (checkWitness sampleContext (hash sampleAccount)) = Inr False"
    by (simp add: checkWitness_def sampleContext_def sampleAccount_def)
  have run: "map_sum id (\<lambda>(h', r). map_option votes (account (blockchain (res_context r)) [0xAA]))
       (Account_SetVotes_invoke [[ECPointStackItem [0x02]]] sampleContext
          [AccountStackItem sampleAccount, ArrayStackItem 0] [])
     = Inr (Some [[0x02]])"
    by (simp add: Account_SetVotes_invoke_def Let_def
      sampleContext_def sampleAccount_def asArray_def MAX_VOTES_def storageGet_def
      balanceOf_def jsNot_object_def Account_update_def isDeletable_def opResult_def)
  show ?thesis
    using never unwitnessed run by (simp add: inv)
qed

section \<open>CHECKSIG and CHECKMULTISIG\<close>

lemma singleton_loop:
  "checkMultisigLoop vf msg [s] [p] 0 0 True = (case vf msg s p of Inl e \<Rightarrow> False | Inr r \<Rightarrow> r)"
  by (simp add: checkMultisigLoop.simps [of vf msg "[s]" "[p]"] split: sum.splits)

lemma CHECKSIG_eq_CHECKMULTISIG_invoke:
  assumes "a1 < length h" "a2 < length h" "h ! a1 = [pk]" "h ! a2 = [sg]"
  shows "CHECKMULTISIG_invoke X h ctx [ArrayStackItem a1, ArrayStackItem a2] argsAlt'
         = CHECKSIG_invoke X h ctx [pk, sg] argsAlt"
proof (cases "asBuffer X pk")
  case (Inl e)
  then show ?thesis
    using assms by (simp add: CHECKMULTISIG_invoke_def CHECKSIG_invoke_def asArray_def)
next
  case pkb: (Inr p)
  show ?thesis
  proof (cases "asBuffer X sg")
    case (Inl e)
    then show ?thesis
      using assms pkb
      by (simp add: CHECKMULTISIG_invoke_def CHECKSIG_invoke_def asArray_def arg_def)
  next
    case (Inr s)
    then show ?thesis
      using assms pkb
      by (simp add: CHECKMULTISIG_invoke_def CHECKSIG_invoke_def asArray_def arg_def
          singleton_loop)
  qed
qed

lemma CHECKMULTISIG_arrays_create:
  "CHECKMULTISIG X h (ctx \<lparr> stack := ArrayStackItem a1 # ArrayStackItem a2 # rest \<rparr>)
   = Inr (createOp ((opArgs ''CHECKMULTISIG'' (CHECKMULTISIG_invoke X))
             \<lparr> a_in := Some 2, a_out := Some 1 \<rparr>)
           (ctx \<lparr> stack := ArrayStackItem a1 # ArrayStackItem a2 # rest \<rparr>))"
  by (simp add: CHECKMULTISIG_def stackAt_def)

lemma CHECKSIG_invalid:
  assumes "asBuffer X pk = Inr p" "asBuffer X sg = Inr s"
    "verify X (message (scriptContainer (init ctx))) s p \<noteq> Inr True"
  shows "CHECKSIG_invoke X h ctx [pk, sg] argsAlt = opResult h ctx [BooleanStackItem False] []"
  using assms by (auto simp: CHECKSIG_invoke_def arg_def split: sum.splits)

text \<open>
  Claim C1. \<open>CHECKSIG\<close> on a public key item \<open>pk\<close> and a signature item \<open>sg\<close> and
  \<open>CHECKMULTISIG\<close> on the one-element arrays \<open>[pk]\<close> and \<open>[sg]\<close> end the same way, as
  whole steps (decode of the arity, pop, invoke, push): the same stack with the same
  Boolean on top, or the same fault. When both items coerce to buffers and \<open>verify\<close> does
  not return \<open>true\<close> for them (it returns \<open>false\<close> or throws), that Boolean is \<open>false\<close>.
\<close>

theorem CHECKSIG_agrees_with_CHECKMULTISIG:
  assumes "a1 < length h" and "a2 < length h" and "h ! a1 = [pk]" and "h ! a2 = [sg]"
  shows "bindE (CHECKMULTISIG X h (ctx \<lparr> stack := ArrayStackItem a1 # ArrayStackItem a2 # rest \<rparr>))
           (runOp h)
         = runOp h (CHECKSIG X (ctx \<lparr> stack := pk # sg # rest \<rparr>))
       \<and> (asBuffer X pk = Inr p \<and> asBuffer X sg = Inr s
            \<and> verify X (message (scriptContainer (init ctx))) s p \<noteq> Inr True
          \<longrightarrow> runOp h (CHECKSIG X (ctx \<lparr> stack := pk # sg # rest \<rparr>))
              = Inr (h, ctx \<lparr> stack := BooleanStackItem False # rest \<rparr>))"
proof
  have inv: "CHECKMULTISIG_invoke X h (ctx \<lparr> stack := rest \<rparr>)
               [ArrayStackItem a1, ArrayStackItem a2] []
             = CHECKSIG_invoke X h (ctx \<lparr> stack := rest \<rparr>) [pk, sg] []"
    using assms by (rule CHECKSIG_eq_CHECKMULTISIG_invoke)
  show "bindE (CHECKMULTISIG X h (ctx \<lparr> stack := ArrayStackItem a1 # ArrayStackItem a2 # rest \<rparr>))
           (runOp h)
         = runOp h (CHECKSIG X (ctx \<lparr> stack := pk # sg # rest \<rparr>))"
    by (simp add: CHECKMULTISIG_arrays_create runOp_def createOp_simps CHECKSIG_def inv)
  show "asBuffer X pk = Inr p \<and> asBuffer X sg = Inr s
            \<and> verify X (message (scriptContainer (init ctx))) s p \<noteq> Inr True
          \<longrightarrow> runOp h (CHECKSIG X (ctx \<lparr> stack := pk # sg # rest \<rparr>))
              = Inr (h, ctx \<lparr> stack := BooleanStackItem False # rest \<rparr>)"
  proof
    assume bad: "asBuffer X pk = Inr p \<and> asBuffer X sg = Inr s
            \<and> verify X (message (scriptContainer (init ctx))) s p \<noteq> Inr True"
    then have "CHECKSIG_invoke X h (ctx \<lparr> stack := rest \<rparr>) [pk, sg] []
        = opResult h (ctx \<lparr> stack := rest \<rparr>) [BooleanStackItem False] []"
      using CHECKSIG_invalid [of X pk p sg s "ctx \<lparr> stack := rest \<rparr>" h "[]"] by simp
    then show "runOp h (CHECKSIG X (ctx \<lparr> stack := pk # sg # rest \<rparr>))
              = Inr (h, ctx \<lparr> stack := BooleanStackItem False # rest \<rparr>)"
      by (simp add: runOp_def createOp_simps CHECKSIG_def opResult_def)
  qed
qed

theorem CHECKSIG_agrees_with_CHECKMULTISIG_witness:
  "runOp [[BufferStackItem [0xAB]], [BufferStackItem [0x01, 0x02, 0xAB]], [BufferStackItem [0x00]]]
       (CHECKSIG sampleExternals
          (sampleContext \<lparr> stack := [BufferStackItem [0xAB], BufferStackItem [0x00]] \<rparr>))
     = Inr ([[BufferStackItem [0xAB]], [BufferStackItem [0x01, 0x02, 0xAB]], [BufferStackItem [0x00]]],
            sampleContext \<lparr> stack := [BooleanStackItem False] \<rparr>)
   \<and> bindE (CHECKMULTISIG sampleExternals
              [[BufferStackItem [0xAB]], [BufferStackItem [0x01, 0x02, 0xAB]], [BufferStackItem [0x00]]]
              (sampleContext \<lparr> stack := [ArrayStackItem 0, ArrayStackItem 2] \<rparr>))
       (runOp [[BufferStackItem [0xAB]], [BufferStackItem [0x01, 0x02, 0xAB]], [BufferStackItem [0x00]]])
     = Inr ([[BufferStackItem [0xAB]], [BufferStackItem [0x01, 0x02, 0xAB]], [BufferStackItem [0x00]]],
            sampleContext \<lparr> stack := [BooleanStackItem False] \<rparr>)
   \<and> bindE (CHECKMULTISIG sampleExternals
              [[BufferStackItem [0xAB]], [BufferStackItem [0x01, 0x02, 0xAB]], [BufferStackItem [0x00]]]
              (sampleContext \<lparr> stack := [ArrayStackItem 0, ArrayStackItem 1] \<rparr>))
       (runOp [[BufferStackItem [0xAB]], [BufferStackItem [0x01, 0x02, 0xAB]], [BufferStackItem [0x00]]])
     = runOp [[BufferStackItem [0xAB]], [BufferStackItem [0x01, 0x02, 0xAB]], [BufferStackItem [0x00]]]
         (CHECKSIG sampleExternals
            (sampleContext \<lparr> stack := [BufferStackItem [0xAB], BufferStackItem [0x01, 0x02, 0xAB]] \<rparr>))
   \<and> runOp [[BufferStackItem [0xAB]], [BufferStackItem [0x01, 0x02, 0xAB]], [BufferStackItem [0x00]]]
         (CHECKSIG sampleExternals
            (sampleContext \<lparr> stack := [BufferStackItem [0xAB], BufferStackItem [0x01, 0x02, 0xAB]] \<rparr>))
     = Inr ([[BufferStackItem [0xAB]], [BufferStackItem [0x01, 0x02, 0xAB]], [BufferStackItem [0x00]]],
            sampleContext \<lparr> stack := [BooleanStackItem True] \<rparr>)"
proof -
  let ?h = "[[BufferStackItem [0xAB]], [BufferStackItem [0x01, 0x02, 0xAB]], [BufferStackItem [0x00]]]"
  have bad: "bindE (CHECKMULTISIG sampleExternals ?h
                (sampleContext \<lparr> stack := [ArrayStackItem 0, ArrayStackItem 2] \<rparr>)) (runOp ?h)
             = runOp ?h (CHECKSIG sampleExternals
                 (sampleContext \<lparr> stack := [BufferStackItem [0xAB], BufferStackItem [0x00]] \<rparr>))
             \<and> runOp ?h (CHECKSIG sampleExternals
                 (sampleContext \<lparr> stack := [BufferStackItem [0xAB], BufferStackItem [0x00]] \<rparr>))
               = Inr (?h, sampleContext \<lparr> stack := [BooleanStackItem False] \<rparr>)"
    using CHECKSIG_agrees_with_CHECKMULTISIG [where ?a1.0 = 0 and h = ?h
        and ?a2.0 = 2 and pk = "BufferStackItem [0xAB]" and sg = "BufferStackItem [0x00]"
        and X = sampleExternals and ctx = sampleContext and rest = "[]" and p = "[0xAB]"
        and s = "[0x00]"]
    by (simp add: sampleExternals_def sampleContext_def)
  have good: "bindE (CHECKMULTISIG sampleExternals ?h
                (sampleContext \<lparr> stack := [ArrayStackItem 0, ArrayStackItem 1] \<rparr>)) (runOp ?h)
             = runOp ?h (CHECKSIG sampleExternals
                 (sampleContext \<lparr> stack := [BufferStackItem [0xAB],
                    BufferStackItem [0x01, 0x02, 0xAB]] \<rparr>))"
    using CHECKSIG_agrees_with_CHECKMULTISIG [where ?a1.0 = 0 and h = ?h
        and ?a2.0 = 1 and pk = "BufferStackItem [0xAB]"
        and sg = "BufferStackItem [0x01, 0x02, 0xAB]"
        and X = sampleExternals and ctx = sampleContext and rest = "[]"]
    by simp
  have accepted: "runOp ?h (CHECKSIG sampleExternals
                 (sampleContext \<lparr> stack := [BufferStackItem [0xAB],
                    BufferStackItem [0x01, 0x02, 0xAB]] \<rparr>))
               = Inr (?h, sampleContext \<lparr> stack := [BooleanStackItem True] \<rparr>)"
    by (simp add: runOp_def CHECKSIG_def createOp_simps CHECKSIG_invoke_def Let_def
        sampleExternals_def sampleContext_def opResult_def)
  show ?thesis
    using bad good accepted by simp
qed

section \<open>PACK and UNPACK\<close>

lemma unpackLoop_rev: "k \<le> length arr \<Longrightarrow> unpackLoop arr k res = res @ rev (take k arr)"
proof (induction k arbitrary: res)
  case 0
  then show ?case by simp
next
  case (Suc k)
  then show ?case by (simp add: take_Suc_conv_app_nth)
qed

lemma nat_1_plus_int [simp]: "nat (1 + int n) = Suc n"
  by simp

lemma jsSliceFrom_tail: "jsSliceFrom (x # xs) 1 = xs"
  by (simp add: jsSliceFrom_def jsSlice_def Let_def)

text \<open>
  Claim C7. Given the count \<open>n\<close> and below it the items \<open>vs\<close> (\<open>n\<close> of them, top-most
  first), \<open>PACK\<close> returns one new array holding \<open>vs\<close>, and \<open>UNPACK\<close> of that array
  returns the items from the last to the first and then the integer \<open>n\<close>. As steps on
  a stack: \<open>PACK\<close> leaves the array on the rest of the stack, and \<open>UNPACK\<close> leaves \<open>vs\<close>
  in their original order with \<open>n\<close> on top, above the untouched rest.
\<close>

theorem PACK_UNPACK_roundtrip:
  assumes "asBigInteger X cnt = Inr b" and "toNumber X b = Inr (int (length vs))"
  shows "PACK_invoke h ctx' (cnt # vs) [] = opResult (h @ [vs]) ctx' [ArrayStackItem (length h)] []
         \<and> UNPACK_invoke (h @ [vs]) ctx' [ArrayStackItem (length h)] []
           = opResult (h @ [vs]) ctx' (rev vs @ [IntegerStackItem (int (length vs))]) []
         \<and> bindE (PACK X h (ctx \<lparr> stack := cnt # vs @ rest \<rparr>)) (runOp h)
           = Inr (h @ [vs], ctx \<lparr> stack := ArrayStackItem (length h) # rest \<rparr>)
         \<and> bindE (UNPACK (h @ [vs]) (ctx \<lparr> stack := ArrayStackItem (length h) # rest \<rparr>))
             (runOp (h @ [vs]))
           = Inr (h @ [vs],
                  ctx \<lparr> stack := IntegerStackItem (int (length vs)) # vs @ rest \<rparr>)"
proof (intro conjI)
  show "PACK_invoke h ctx' (cnt # vs) [] = opResult (h @ [vs]) ctx' [ArrayStackItem (length h)] []"
    by (simp add: PACK_invoke_def alloc_def jsSliceFrom_tail)
  show "UNPACK_invoke (h @ [vs]) ctx' [ArrayStackItem (length h)] []
           = opResult (h @ [vs]) ctx' (rev vs @ [IntegerStackItem (int (length vs))]) []"
    by (simp add: UNPACK_invoke_def asArray_def unpackLoop_rev)
  show "bindE (PACK X h (ctx \<lparr> stack := cnt # vs @ rest \<rparr>)) (runOp h)
           = Inr (h @ [vs], ctx \<lparr> stack := ArrayStackItem (length h) # rest \<rparr>)"
    using assms
    by (simp add: PACK_def stackAt_def runOp_def createOp_simps PACK_invoke_def alloc_def
        jsSliceFrom_tail opResult_def Let_def)
  show "bindE (UNPACK (h @ [vs]) (ctx \<lparr> stack := ArrayStackItem (length h) # rest \<rparr>))
             (runOp (h @ [vs]))
           = Inr (h @ [vs],
                  ctx \<lparr> stack := IntegerStackItem (int (length vs)) # vs @ rest \<rparr>)"
    by (simp add: UNPACK_def stackAt_def asArray_def runOp_def createOp_simps
        UNPACK_invoke_def unpackLoop_rev opResult_def Let_def)
qed

theorem PACK_UNPACK_roundtrip_witness:
  "bindE (PACK sampleExternals []
            (sampleContext \<lparr> stack := [IntegerStackItem 2, BooleanStackItem True,
               IntegerStackItem 7, BufferStackItem [0x01]] \<rparr>)) (runOp [])
     = Inr ([[BooleanStackItem True, IntegerStackItem 7]],
            sampleContext \<lparr> stack := [ArrayStackItem 0, BufferStackItem [0x01]] \<rparr>)
   \<and> bindE (UNPACK [[BooleanStackItem True, IntegerStackItem 7]]
              (sampleContext \<lparr> stack := [ArrayStackItem 0, BufferStackItem [0x01]] \<rparr>))
         (runOp [[BooleanStackItem True, IntegerStackItem 7]])
     = Inr ([[BooleanStackItem True, IntegerStackItem 7]],
            sampleContext \<lparr> stack := [IntegerStackItem 2, BooleanStackItem True,
               IntegerStackItem 7, BufferStackItem [0x01]] \<rparr>)"
  using PACK_UNPACK_roundtrip [where X = sampleExternals and cnt = "IntegerStackItem 2"
      and b = 2 and vs = "[BooleanStackItem True, IntegerStackItem 7]" and h = "[]"
      and ctx = sampleContext and rest = "[BufferStackItem [0x01]]"]
  by (simp add: sampleExternals_def)


section \<open>Jumps\<close>

lemma uint_cat16: "uint (word_cat (hi :: 8 word) (lo :: 8 word) :: 16 word) = uint lo + 256 * uint hi"
proof -
  have lo: "0 \<le> uint lo" "uint lo < 256" using uint_lt2p [of lo] by simp_all
  have hi: "0 \<le> uint hi" "uint hi < 256" using uint_lt2p [of hi] by simp_all
  have "uint (word_cat hi lo :: 16 word) = (uint hi * 256 mod 65536 + uint lo) mod 65536"
    by (simp add: word_cat_eq uint_word_of_int_eq concat_bit_eq take_bit_eq_mod push_bit_eq_mult
        uint_word_ariths uint_up_ucast is_up)
  also have "\<dots> = uint lo + 256 * uint hi"
    using lo hi by simp
  finally show ?thesis .
qed

lemma sint16: "sint (w :: 16 word) = (if 32768 \<le> uint w then uint w - 65536 else uint w)"
proof -
  have b: "0 \<le> uint w" "uint w < 65536" using uint_lt2p [of w] by simp_all
  have hiw: "(uint w + 32768) mod 65536 = uint w - 32768" if "32768 \<le> uint w"
  proof -
    have "uint w + 32768 = uint w - 32768 + 65536"
      by arith
    then have "(uint w + 32768) mod 65536 = (uint w - 32768 + 65536) mod 65536"
      by (rule arg_cong)
    also have "\<dots> = (uint w - 32768) mod 65536"
      by (simp only: mod_add_self2)
    also have "\<dots> = uint w - 32768"
      using that b by (simp add: mod_pos_pos_trivial)
    finally show ?thesis .
  qed
  have low: "(uint w + 32768) mod 65536 = uint w + 32768" if "\<not> 32768 \<le> uint w"
    using that b by (simp add: mod_pos_pos_trivial)
  show ?thesis
    using hiw low by (simp add: sint_uint signed_take_bit_eq_take_bit_shift take_bit_eq_mod)
qed

lemma readInt16LE_sint:
  "0 \<le> off \<Longrightarrow> off + 2 \<le> int (length buf)
   \<Longrightarrow> readInt16LE buf off
       = Inr (sint (word_cat (buf ! nat (off + 1)) (buf ! nat off) :: 16 word))"
  by (simp add: readInt16LE_def Let_def sint16 uint_cat16)


lemma OPCODES_jumps:
  "OPCODES X d 0x62 = Some (static (JMP X))"
  "OPCODES X d 0x63 = Some (static (jump X ''JMPIF'' (Some True)))"
  "OPCODES X d 0x64 = Some (static (jump X ''JMPIFNOT'' (Some False)))"
  by (simp_all add: OPCODES_def OPCODE_PAIRS_def)

lemma lookupOp_static:
  "codeAt (code c0) (pc c0) = Some opCode \<Longrightarrow> table opCode = Some (static create)
   \<Longrightarrow> lookupOp table h c0 = Inr (create (c0 \<lparr> pc := pc c0 + 1 \<rparr>))"
  by (simp add: lookupOp_def truthy_def PushOnly_def static_def)

lemma jump_in:
  "op_in (jump X n checkTrue c) = (if checkTrue = None then 0 else 1)"
  "op_invoke (jump X n checkTrue c) = jump_invoke X checkTrue"
  by (simp_all add: jump_def createOp_simps)

lemma jump_invoke_overflow:
  assumes "readInt16LE (code ctx) (pc ctx) = Inr offset"
    and "pc ctx + 2 + offset - 3 < 0 \<or> pc ctx + 2 + offset - 3 > int (length (code ctx))"
  shows "jump_invoke X checkTrue h ctx args argsAlt = Inl CodeOverflowError"
  using assms by (simp add: jump_invoke_def Let_def)

lemma jump_invoke_JMP:
  assumes "readInt16LE (code ctx) (pc ctx) = Inr offset"
    and "0 \<le> pc ctx + 2 + offset - 3" and "pc ctx + 2 + offset - 3 \<le> int (length (code ctx))"
  shows "jump_invoke X None h ctx args argsAlt
         = opResult h (ctx \<lparr> pc := pc ctx + 2 + offset - 3 \<rparr>) [] []"
  using assms by (simp add: jump_invoke_def Let_def)

lemma jump_invoke_conditional:
  assumes "readInt16LE (code ctx) (pc ctx) = Inr offset"
    and "0 \<le> pc ctx + 2 + offset - 3" and "pc ctx + 2 + offset - 3 \<le> int (length (code ctx))"
    and "asBoolean X a = Inr b"
  shows "jump_invoke X (Some ct) h ctx [a] argsAlt
         = opResult h (ctx \<lparr> pc := (if b = ct then pc ctx + 2 + offset - 3 else pc ctx + 2) \<rparr>)
             [] []"
  using assms by (auto simp: jump_invoke_def Let_def)

lemma jumpContext_read:
  "codeAt (code (jumpContext opByte lo hi)) (pc (jumpContext opByte lo hi)) = Some (unat opByte)"
  "code (jumpContext opByte lo hi \<lparr> pc := 1 \<rparr>) = [opByte, lo, hi, 0x57, 0x66]"
  "pc (jumpContext opByte lo hi \<lparr> pc := 1 \<rparr>) = 1"
  "pc (jumpContext opByte lo hi) + 1 = 1"
  by (simp_all add: jumpContext_def sampleContext_def codeAt_def)

lemma sample_asBoolean: "asBoolean sampleExternals (BooleanStackItem b) = Inr b"
  by (simp add: sampleExternals_def)

lemma jump_context: "op_context (jump X n checkTrue c) = c"
  by (simp add: jump_def createOp_simps)

lemma jump_alt: "op_inAlt (jump X n checkTrue c) = 0"
  by (simp add: jump_def createOp_simps)

lemma jump_invoke_overflow': 
  assumes "readInt16LE (code ctx) (pc ctx) = Inr offset"
  shows "jump_invoke X checkTrue h ctx args argsAlt
         = (if pc ctx + 2 + offset - 3 < 0 \<or> pc ctx + 2 + offset - 3 > int (length (code ctx))
            then Inl CodeOverflowError
            else bindE
              (case checkTrue of
                 None \<Rightarrow> Inr True
               | Some ct \<Rightarrow>
                   bindE (arg args 0) (\<lambda>a0.
                   bindE (asBoolean X a0) (\<lambda>b. Inr (if \<not> ct then \<not> b else b))))
              (\<lambda>shouldJump.
                 opResult h (ctx \<lparr> pc := (if shouldJump then pc ctx + 2 + offset - 3
                                           else pc ctx + 2) \<rparr>) [] []))"
  using assms by (simp add: jump_invoke_def Let_def)

lemma run_JMP:
  assumes "readInt16LE (code c0) (pc c0 + 1) = Inr offset"
  shows "runOp h (jump X n None (c0 \<lparr> pc := pc c0 + 1 \<rparr>))
         = (if pc c0 + 1 + 2 + offset - 3 < 0
               \<or> pc c0 + 1 + 2 + offset - 3 > int (length (code c0))
            then Inl CodeOverflowError
            else Inr (h, c0 \<lparr> pc := pc c0 + 1 + 2 + offset - 3 \<rparr>))"
proof -
  let ?c1 = "c0 \<lparr> pc := pc c0 + 1 \<rparr>"
  have rd: "readInt16LE (code ?c1) (pc ?c1) = Inr offset"
    using assms by simp
  have inv: "jump_invoke X None h ?c1 [] []
      = (if pc c0 + 1 + 2 + offset - 3 < 0
               \<or> pc c0 + 1 + 2 + offset - 3 > int (length (code c0))
         then Inl CodeOverflowError
         else opResult h (c0 \<lparr> pc := pc c0 + 1 + 2 + offset - 3 \<rparr>) [] [])"
    using jump_invoke_overflow' [OF rd, of X None h "[]" "[]"] by simp
  show ?thesis
    using inv by (simp add: runOp_def jump_in jump_alt jump_context Let_def opResult_def)
qed

lemma run_conditional:
  assumes "readInt16LE (code c0) (pc c0 + 1) = Inr offset" and "stack c0 = a # rest"
  shows "runOp h (jump X n (Some ct) (c0 \<lparr> pc := pc c0 + 1 \<rparr>))
         = (if pc c0 + 1 + 2 + offset - 3 < 0
               \<or> pc c0 + 1 + 2 + offset - 3 > int (length (code c0))
            then Inl CodeOverflowError
            else bindE (asBoolean X a) (\<lambda>b.
                   Inr (h, c0 \<lparr> pc := (if b = ct then pc c0 + 1 + 2 + offset - 3
                                         else pc c0 + 1 + 2),
                                stack := rest \<rparr>)))"
proof -
  let ?c1 = "c0 \<lparr> pc := pc c0 + 1, stack := rest, stackAlt := stackAlt c0 \<rparr>"
  have rd: "readInt16LE (code ?c1) (pc ?c1) = Inr offset"
    using assms by simp
  have inv: "jump_invoke X (Some ct) h ?c1 [a] []
      = (if pc c0 + 1 + 2 + offset - 3 < 0
               \<or> pc c0 + 1 + 2 + offset - 3 > int (length (code c0))
         then Inl CodeOverflowError
         else bindE (asBoolean X a) (\<lambda>b.
                opResult h (?c1 \<lparr> pc := (if b = ct then pc c0 + 1 + 2 + offset - 3
                                          else pc c0 + 1 + 2) \<rparr>) [] []))"
    using jump_invoke_overflow' [OF rd, of X "Some ct" h "[a]" "[]"]
    by (cases "asBoolean X a") auto
  show ?thesis
    using assms(2) inv
    by (cases "asBoolean X a")
       (simp_all add: runOp_def jump_in jump_alt jump_context Let_def opResult_def)
qed


lemma readInt16LE_in_range:
  "readInt16LE buf off = Inr v \<Longrightarrow> 0 \<le> off \<and> off + 2 \<le> int (length buf)"
  by (simp add: readInt16LE_def split: if_splits)

lemma jumpContext_fields:
  "code (jumpContext opByte lo hi \<lparr> stack := stk \<rparr>) = [opByte, lo, hi, 0x57, 0x66]"
  "pc (jumpContext opByte lo hi \<lparr> stack := stk \<rparr>) = 0"
  "stack (jumpContext opByte lo hi \<lparr> stack := stk \<rparr>) = stk"
  "code (jumpContext opByte lo hi) = [opByte, lo, hi, 0x57, 0x66]"
  "pc (jumpContext opByte lo hi) = 0"
  by (simp_all add: jumpContext_def sampleContext_def)



section \<open>Neo.Storage.Get\<close>

lemma alias_canonical:
  "SYSCALL_ALIASES ''Neo.Storage.Get'' = None"
  "SYSCALL_ALIASES ''AntShares.Storage.Get'' = Some ''Neo.Storage.Get''"
  by (simp_all add: SYSCALL_ALIASES_def)

lemma SYSCALLS_Storage_Get: "SYSCALLS X ''Neo.Storage.Get'' = Some (Storage_Get X)"
  by (simp add: SYSCALLS_def)

lemma lookupSysCall_Storage_Get:
  assumes "readVarBytesLE (code c1) (pc c1) SYS_CALL_STRING_LENGTH = Inr (bytes, index)"
    and "toASCII bytes = ''Neo.Storage.Get'' \<or> toASCII bytes = ''AntShares.Storage.Get''"
  shows "lookupSysCall readVarBytesLE toASCII (SYSCALLS X) c1
         = Inr (Storage_Get X (c1 \<lparr> pc := index \<rparr>))"
  using assms(2)
proof
  assume "toASCII bytes = ''Neo.Storage.Get''"
  then show ?thesis
    using assms(1) by (simp add: lookupSysCall_def alias_canonical SYSCALLS_Storage_Get)
next
  assume "toASCII bytes = ''AntShares.Storage.Get''"
  then show ?thesis
    using assms(1) by (simp add: lookupSysCall_def alias_canonical SYSCALLS_Storage_Get)
qed

lemma Storage_Get_fields:
  "op_in (Storage_Get X c) = 2" "op_inAlt (Storage_Get X c) = 0" "op_out (Storage_Get X c) = 1"
  "op_invoke (Storage_Get X c) = Storage_Get_invoke X" "op_context (Storage_Get X c) = c"
  by (simp_all add: Storage_Get_def createSysCall_simps)

lemma Storage_Get_invoke_result:
  assumes "toStorageContext X ctx a0 = Inr hsh" and "contract (blockchain ctx) hsh = Some c"
  shows "Storage_Get_invoke X h ctx [a0, a1] argsAlt
         = (if \<not> hasStorage c then Inl ContractNoStorageError
            else bindE (asBuffer X a1) (\<lambda>key.
                   opResult h ctx
                     [BufferStackItem (case storageItem (blockchain ctx) (hsh, key) of
                                         Some v \<Rightarrow> v | None \<Rightarrow> [])] []))"
  using assms
  by (cases "asBuffer X a1")
     (simp_all add: Storage_Get_invoke_def checkStorage_def storageGet_def tryGet_def)

lemma Storage_Get_dispatch:
  assumes "readVarBytesLE (code c1) (pc c1) SYS_CALL_STRING_LENGTH = Inr (bytes, index)"
    and "toASCII bytes = ''Neo.Storage.Get'' \<or> toASCII bytes = ''AntShares.Storage.Get''"
    and "stack c1 = a0 # a1 # rest"
    and "toStorageContext X (c1 \<lparr> pc := index, stack := rest \<rparr>) a0 = Inr hsh"
    and "contract (blockchain c1) hsh = Some c"
  shows "map_sum id (\<lambda>op. (op_in op, op_out op))
           (SYSCALL (lookupSysCall readVarBytesLE toASCII (SYSCALLS X)) h c1) = Inr (2, 1)
         \<and> (\<not> hasStorage c
            \<longrightarrow> bindE (SYSCALL (lookupSysCall readVarBytesLE toASCII (SYSCALLS X)) h c1) (runOp h)
                = Inl ContractNoStorageError)
         \<and> (hasStorage c
            \<longrightarrow> bindE (SYSCALL (lookupSysCall readVarBytesLE toASCII (SYSCALLS X)) h c1) (runOp h)
                = bindE (asBuffer X a1) (\<lambda>key.
                    Inr (h, c1 \<lparr> pc := index,
                                 stack := BufferStackItem
                                    (case storageItem (blockchain c1) (hsh, key) of
                                       Some v \<Rightarrow> v | None \<Rightarrow> []) # rest \<rparr>)))"
proof -
  let ?op = "SYSCALL (lookupSysCall readVarBytesLE toASCII (SYSCALLS X)) h c1"
  let ?c2 = "c1 \<lparr> pc := index, stack := rest \<rparr>"
  have found: "lookupSysCall readVarBytesLE toASCII (SYSCALLS X) c1
         = Inr (Storage_Get X (c1 \<lparr> pc := index \<rparr>))"
    using assms(1,2) by (rule lookupSysCall_Storage_Get)
  have arity: "map_sum id (\<lambda>op. (op_in op, op_out op)) ?op = Inr (2, 1)"
    by (simp add: SYSCALL_def found Storage_Get_fields)
  have ct: "contract (blockchain ?c2) hsh = Some c"
    using assms(5) by simp
  have inv: "Storage_Get_invoke X h ?c2 [a0, a1] []
         = (if \<not> hasStorage c then Inl ContractNoStorageError
            else bindE (asBuffer X a1) (\<lambda>key.
                   opResult h ?c2
                     [BufferStackItem (case storageItem (blockchain ?c2) (hsh, key) of
                                         Some v \<Rightarrow> v | None \<Rightarrow> [])] []))"
    using assms(4) ct by (rule Storage_Get_invoke_result)
  have run: "bindE ?op (runOp h)
      = bindE (Storage_Get_invoke X h ?c2 [a0, a1] [])
          (\<lambda>(h', r). Inr (h', (res_context r)
                 \<lparr> stack := rev (results r) @ stack (res_context r),
                   stackAlt := rev (resultsAlt r) @ stackAlt (res_context r) \<rparr>))"
    using assms(3)
    by (simp add: SYSCALL_def found runOp_def Let_def Storage_Get_fields)
  have refused: "\<not> hasStorage c \<longrightarrow> bindE ?op (runOp h) = Inl ContractNoStorageError"
    by (simp add: run inv)
  have pushed: "hasStorage c
            \<longrightarrow> bindE ?op (runOp h)
                = bindE (asBuffer X a1) (\<lambda>key.
                    Inr (h, c1 \<lparr> pc := index,
                                 stack := BufferStackItem
                                    (case storageItem (blockchain c1) (hsh, key) of
                                       Some v \<Rightarrow> v | None \<Rightarrow> []) # rest \<rparr>))"
    by (cases "asBuffer X a1") (simp_all add: run inv opResult_def)
  show ?thesis
    using arity refused pushed by blast
qed

lemma sample_names:
  "sampleToASCII (asciiBytes ''Neo.Storage.Get'') = ''Neo.Storage.Get''"
  "sampleToASCII (asciiBytes ''AntShares.Storage.Get'') = ''AntShares.Storage.Get''"
  by code_simp+

lemma sample_read:
  "sampleReadVarBytesLE (0x68 # 15 # asciiBytes ''Neo.Storage.Get'') 1 SYS_CALL_STRING_LENGTH
   = Inr (asciiBytes ''Neo.Storage.Get'', 17)"
  "sampleReadVarBytesLE (0x68 # 21 # asciiBytes ''AntShares.Storage.Get'') 1
       SYS_CALL_STRING_LENGTH
   = Inr (asciiBytes ''AntShares.Storage.Get'', 23)"
  by (simp_all add: sampleReadVarBytesLE_def SYS_CALL_STRING_LENGTH_def asciiBytes_def)


lemma sysCallContext_fields:
  "code (sysCallContext n stk) = 0x68 # of_nat (length n) # asciiBytes n"
  "pc (sysCallContext n stk) = 0"
  "codeAt (code (sysCallContext n stk)) (pc (sysCallContext n stk)) = Some 0x68"
  "stack (sysCallContext n stk) = stk"
  "blockchain (sysCallContext n stk) = blockchain sampleContext"
  by (simp_all add: sysCallContext_def sampleContext_def codeAt_def)

lemma sample_storage:
  "toStorageContext sampleExternals c (StorageContextStackItem u) = Inr u"
  "asBuffer sampleExternals (BufferStackItem b) = Inr b"
  "contract (blockchain sampleContext) [0x61, 0x66] = Some sampleContract"
  "hasStorage sampleContract"
  "storageItem (blockchain sampleContext) ([0x61, 0x66], [0x01]) = Some [0x2A]"
  "storageItem (blockchain sampleContext) ([0x61, 0x66], [0x09]) = None"
  by (simp_all add: sampleExternals_def sampleContext_def sampleContract_def)

lemma sample_opcode: "codeAt (0x68 # bs) 0 = Some 0x68"
  by (simp add: codeAt_def)

lemma lookupOp_SYSCALL:
  "codeAt (code c0) (pc c0) = Some 0x68
   \<Longrightarrow> lookupOp (OPCODES_with_SYSCALL X d lookup) h c0
       = SYSCALL lookup h (c0 \<lparr> pc := pc c0 + 1 \<rparr>)"
  by (simp add: lookupOp_def OPCODES_with_SYSCALL_def truthy_def PushOnly_def)

text \<open>
  Claim C8. A step at a byte \<open>0x68\<close> followed by the name \<open>Neo.Storage.Get\<close> (or its alias
  \<open>AntShares.Storage.Get\<close>), decoded by \<open>lookupOp\<close> and \<open>lookupSysCall\<close> and run: the call
  takes two items and declares one result. With the top item a storage context bound to
  the hash of a contract the ledger holds: when the contract has no storage the step
  faults with \<open>ContractNoStorageError\<close>; when it has storage, the step pops the two items
  and pushes the stored value of the key, or the empty buffer when the key has no item,
  and continues behind the name.
\<close>

theorem Storage_Get_semantics:
  assumes "codeAt (code c0) (pc c0) = Some 0x68"
    and "readVarBytesLE (code c0) (pc c0 + 1) SYS_CALL_STRING_LENGTH = Inr (bytes, index)"
    and "toASCII bytes = ''Neo.Storage.Get'' \<or> toASCII bytes = ''AntShares.Storage.Get''"
    and "stack c0 = a0 # a1 # rest"
    and "toStorageContext X (c0 \<lparr> pc := index, stack := rest \<rparr>) a0 = Inr hsh"
    and "contract (blockchain c0) hsh = Some c"
  shows "map_sum id (\<lambda>op. (op_in op, op_out op)) (lookupOp (OPCODES_with_SYSCALL X d (lookupSysCall readVarBytesLE toASCII (SYSCALLS X))) h c0) = Inr (2, 1)
         \<and> (\<not> hasStorage c
            \<longrightarrow> bindE (lookupOp (OPCODES_with_SYSCALL X d (lookupSysCall readVarBytesLE toASCII (SYSCALLS X))) h c0) (runOp h) = Inl ContractNoStorageError)
         \<and> (hasStorage c
            \<longrightarrow> bindE (lookupOp (OPCODES_with_SYSCALL X d (lookupSysCall readVarBytesLE toASCII (SYSCALLS X))) h c0) (runOp h)
                = bindE (asBuffer X a1) (\<lambda>key.
                    Inr (h, c0 \<lparr> pc := index,
                                 stack := BufferStackItem
                                    (case storageItem (blockchain c0) (hsh, key) of
                                       Some v \<Rightarrow> v | None \<Rightarrow> []) # rest \<rparr>)))"
proof -
  let ?c1 = "c0 \<lparr> pc := pc c0 + 1 \<rparr>"
  have look: "lookupOp (OPCODES_with_SYSCALL X d (lookupSysCall readVarBytesLE toASCII (SYSCALLS X))) h c0
              = SYSCALL (lookupSysCall readVarBytesLE toASCII (SYSCALLS X)) h ?c1"
    using assms(1) by (rule lookupOp_SYSCALL)
  have rd: "readVarBytesLE (code ?c1) (pc ?c1) SYS_CALL_STRING_LENGTH = Inr (bytes, index)"
    using assms(2) by simp
  have stk: "stack ?c1 = a0 # a1 # rest"
    using assms(4) by simp
  have sc: "toStorageContext X (?c1 \<lparr> pc := index, stack := rest \<rparr>) a0 = Inr hsh"
    using assms(5) by simp
  have ct: "contract (blockchain ?c1) hsh = Some c"
    using assms(6) by simp
  note dispatch = Storage_Get_dispatch [where ?c1.0 = ?c1 and readVarBytesLE = readVarBytesLE
      and toASCII = toASCII and bytes = bytes and index = index and ?a0.0 = a0 and ?a1.0 = a1
      and rest = rest and X = X and hsh = hsh and c = c and h = h]
  show ?thesis
    using dispatch rd assms(3) stk sc ct
    by (simp add: look)
qed

theorem Storage_Get_semantics_witness:
  "bindE (lookupOp (OPCODES_with_SYSCALL sampleExternals 8
            (lookupSysCall sampleReadVarBytesLE sampleToASCII (SYSCALLS sampleExternals))) []
            (sysCallContext ''Neo.Storage.Get''
               [StorageContextStackItem [0x61, 0x66], BufferStackItem [0x01],
                IntegerStackItem 7]))
       (runOp [])
     = Inr ([], sysCallContext ''Neo.Storage.Get''
                  [StorageContextStackItem [0x61, 0x66], BufferStackItem [0x01],
                   IntegerStackItem 7]
                \<lparr> pc := 17, stack := [BufferStackItem [0x2A], IntegerStackItem 7] \<rparr>)
   \<and> bindE (lookupOp (OPCODES_with_SYSCALL sampleExternals 8
            (lookupSysCall sampleReadVarBytesLE sampleToASCII (SYSCALLS sampleExternals))) []
            (sysCallContext ''AntShares.Storage.Get''
               [StorageContextStackItem [0x61, 0x66], BufferStackItem [0x09],
                IntegerStackItem 7]))
       (runOp [])
     = Inr ([], sysCallContext ''AntShares.Storage.Get''
                  [StorageContextStackItem [0x61, 0x66], BufferStackItem [0x09],
                   IntegerStackItem 7]
                \<lparr> pc := 23, stack := [BufferStackItem [], IntegerStackItem 7] \<rparr>)
   \<and> bindE (lookupOp (OPCODES_with_SYSCALL sampleExternals 8
            (lookupSysCall sampleReadVarBytesLE sampleToASCII (SYSCALLS sampleExternals))) []
            (sysCallContext ''Neo.Storage.Get''
               [StorageContextStackItem [0x61, 0x66], BufferStackItem [0x01]]
             \<lparr> blockchain := (blockchain sampleContext)
                \<lparr> contract := [[0x61, 0x66] \<mapsto> sampleContract \<lparr> hasStorage := False \<rparr>] \<rparr> \<rparr>))
       (runOp [])
     = Inl ContractNoStorageError
   \<and> map_sum id (\<lambda>op. (op_in op, op_out op))
       (lookupOp (OPCODES_with_SYSCALL sampleExternals 8
            (lookupSysCall sampleReadVarBytesLE sampleToASCII (SYSCALLS sampleExternals))) []
          (sysCallContext ''Neo.Storage.Get''
             [StorageContextStackItem [0x61, 0x66], BufferStackItem [0x01],
              IntegerStackItem 7]))
     = Inr (2, 1)"
proof -
  let ?sc = "StorageContextStackItem [0x61, 0x66]"
  let ?c1 = "sysCallContext ''Neo.Storage.Get'' [?sc, BufferStackItem [0x01], IntegerStackItem 7]"
  let ?c2 = "sysCallContext ''AntShares.Storage.Get''
               [?sc, BufferStackItem [0x09], IntegerStackItem 7]"
  let ?c3 = "sysCallContext ''Neo.Storage.Get'' [?sc, BufferStackItem [0x01]]
             \<lparr> blockchain := (blockchain sampleContext)
                \<lparr> contract := [[0x61, 0x66] \<mapsto> sampleContract \<lparr> hasStorage := False \<rparr>] \<rparr> \<rparr>"
  note inst = Storage_Get_semantics [where readVarBytesLE = sampleReadVarBytesLE
      and toASCII = sampleToASCII and X = sampleExternals and d = 8 and h = "[]" and ?a0.0 = ?sc
      and hsh = "[0x61, 0x66]"]
  have present: "map_sum id (\<lambda>op. (op_in op, op_out op))
       (lookupOp (OPCODES_with_SYSCALL sampleExternals 8
            (lookupSysCall sampleReadVarBytesLE sampleToASCII (SYSCALLS sampleExternals))) []
          ?c1) = Inr (2, 1)
     \<and> bindE (lookupOp (OPCODES_with_SYSCALL sampleExternals 8
            (lookupSysCall sampleReadVarBytesLE sampleToASCII (SYSCALLS sampleExternals))) [] ?c1) (runOp [])
     = Inr ([], ?c1 \<lparr> pc := 17, stack := [BufferStackItem [0x2A], IntegerStackItem 7] \<rparr>)"
    using inst [where ?c0.0 = ?c1 and bytes = "asciiBytes ''Neo.Storage.Get''" and index = 17
        and ?a1.0 = "BufferStackItem [0x01]" and rest = "[IntegerStackItem 7]"
        and c = sampleContract]
    by (simp add: sysCallContext_fields sample_opcode sample_read sample_names sample_storage)
  have absent: "bindE (lookupOp (OPCODES_with_SYSCALL sampleExternals 8
            (lookupSysCall sampleReadVarBytesLE sampleToASCII (SYSCALLS sampleExternals))) [] ?c2) (runOp [])
     = Inr ([], ?c2 \<lparr> pc := 23, stack := [BufferStackItem [], IntegerStackItem 7] \<rparr>)"
    using inst [where ?c0.0 = ?c2 and bytes = "asciiBytes ''AntShares.Storage.Get''"
        and index = 23 and ?a1.0 = "BufferStackItem [0x09]" and rest = "[IntegerStackItem 7]"
        and c = sampleContract]
    by (simp add: sysCallContext_fields sample_opcode sample_read sample_names sample_storage)
  have refused: "bindE (lookupOp (OPCODES_with_SYSCALL sampleExternals 8
            (lookupSysCall sampleReadVarBytesLE sampleToASCII (SYSCALLS sampleExternals))) [] ?c3) (runOp [])
     = Inl ContractNoStorageError"
    using inst [where ?c0.0 = ?c3 and bytes = "asciiBytes ''Neo.Storage.Get''" and index = 17
        and ?a1.0 = "BufferStackItem [0x01]" and rest = "[]"
        and c = "sampleContract \<lparr> hasStorage := False \<rparr>"]
    by (simp add: sysCallContext_fields sample_opcode sample_read sample_names sample_storage)
  show ?thesis
    using present absent refused by simp
qed

section \<open>Neo.Contract.Create\<close>

lemma Contract_Create_result:
  assumes "Contract_Create_invoke X h ctx args argsAlt = Inr (h', r)"
  shows "\<exists>ctx1 contract' created.
           createContract X ctx args = Inr (ctx1, contract', created)
           \<and> h' = h
           \<and> results r = [ContractStackItem contract']
           \<and> res_context r = ctx1 \<lparr> createdContracts :=
                (createdContracts ctx1) (Contract_hashHex X contract' \<mapsto> scriptHash ctx1) \<rparr>"
  using assms
  by (auto simp: Contract_Create_invoke_def bindE_Inr_iff opResult_def)

lemma createContract_scriptHash:
  assumes "createContract X ctx args = Inr (ctx1, contract', created)"
  shows "scriptHash ctx1 = scriptHash ctx"
  using assms unfolding createContract_def Let_def
  by (auto simp: bindE_Inr_iff split: option.splits)

lemma sample_Create_run:
  "op_invoke (Contract_Create sampleExternals sampleContext) [] sampleContext
       sampleCreateArgs []
     = Inr ([], \<lparr> res_context = sampleContext \<lparr> createdContracts :=
                     [Contract_hashHex sampleExternals sampleContract \<mapsto> [0x07]] \<rparr>,
                  results = [ContractStackItem sampleContract], resultsAlt = [] \<rparr>)"
  by (simp add: Contract_Create_def createSysCall_simps Contract_Create_invoke_def
      createContract_def sampleCreateArgs_def arg_def sampleExternals_def bnToNumber_def
      tryGet_def sampleContext_def opResult_def)





section \<open>SETITEM and struct cloning\<close>

lemma freshClosed_append:
  assumes "freshClosed n h1" "n \<le> length h1" "freshClosed (length h1) (h1 @ ext)"
  shows "freshClosed n (h1 @ ext)"
  unfolding freshClosed_def
proof (intro allI impI)
  fix b c
  assume b: "n \<le> b \<and> b < length (h1 @ ext)" and c: "StructStackItem c \<in> set ((h1 @ ext) ! b)"
  show "n \<le> c \<and> c < length (h1 @ ext)"
  proof (cases "b < length h1")
    case True
    then have "StructStackItem c \<in> set (h1 ! b)" using c by (simp add: nth_append)
    then have "n \<le> c \<and> c < length h1"
      using assms(1) b True unfolding freshClosed_def by blast
    then show ?thesis by simp
  next
    case False
    then have "length h1 \<le> c \<and> c < length (h1 @ ext)"
      using assms(3) b c unfolding freshClosed_def by (metis not_less)
    then show ?thesis using assms(2) by simp
  qed
qed

lemma cloneItems_good:
  assumes "goodClone rec"
  shows "cloneItems rec h xs = Inr (h1, ys)
         \<Longrightarrow> (\<exists>ext. h1 = h @ ext) \<and> freshClosed (length h) h1
             \<and> (\<forall>c. StructStackItem c \<in> set ys \<longrightarrow> length h \<le> c \<and> c < length h1)
             \<and> cloneOf xs ys"
proof (induction xs arbitrary: h h1 ys)
  case Nil
  then show ?case by (simp add: freshClosed_def cloneOf_def)
next
  case (Cons x xs)
  show ?case
  proof (cases "isStruct x")
    case True
    then obtain b where x: "x = StructStackItem b" by (cases x) simp_all
    from Cons.prems obtain h' b' h2 ys' where
      rec: "rec h b = Inr (h', b')" and rest: "cloneItems rec h' xs = Inr (h2, ys')"
      and res: "h1 = h2" "ys = StructStackItem b' # ys'"
      by (auto simp: x bindE_Inr_iff)
    from assms rec obtain ext1 where
      e1: "h' = h @ ext1" and b': "length h \<le> b'" "b' < length h'"
      and f1: "freshClosed (length h) h'"
      unfolding goodClone_def by blast
    from Cons.IH [OF rest] obtain ext2 where
      e2: "h2 = h' @ ext2" and f2: "freshClosed (length h') h2"
      and ys': "\<forall>c. StructStackItem c \<in> set ys' \<longrightarrow> length h' \<le> c \<and> c < length h2"
      and cl: "cloneOf xs ys'"
      by blast
    have len: "length h \<le> length h'" using e1 by simp
    have "freshClosed (length h) h2"
      using freshClosed_append [OF f1 len] f2 e2 by simp
    moreover have "\<exists>ext. h1 = h @ ext" using e1 e2 res by simp
    moreover have "\<forall>c. StructStackItem c \<in> set ys \<longrightarrow> length h \<le> c \<and> c < length h1"
      using ys' b' len e2 res by auto
    moreover have "cloneOf (x # xs) ys"
      using cl x res unfolding cloneOf_def by simp
    ultimately show ?thesis using res by simp
  next
    case False
    from Cons.prems False obtain h2 ys' where
      rest: "cloneItems rec h xs = Inr (h2, ys')" and res: "h1 = h2" "ys = x # ys'"
      by (cases x) (auto simp: bindE_Inr_iff)
    from Cons.IH [OF rest] have
      ih: "(\<exists>ext. h2 = h @ ext) \<and> freshClosed (length h) h2
          \<and> (\<forall>c. StructStackItem c \<in> set ys' \<longrightarrow> length h \<le> c \<and> c < length h2)
          \<and> cloneOf xs ys'" .
    have notS: "\<And>c. x \<noteq> StructStackItem c" using False by auto
    have "cloneOf (x # xs) ys"
      using ih False res unfolding cloneOf_def by simp
    then show ?thesis using ih res notS by auto
  qed
qed

lemma clone_good: "goodClone (clone fuel)"
proof (induction fuel)
  case 0
  then show ?case by (simp add: goodClone_def)
next
  case (Suc fuel)
  show ?case
    unfolding goodClone_def
  proof (intro allI impI)
    fix h a h1 a'
    assume run: "clone (Suc fuel) h a = Inr (h1, a')"
    then obtain h' ys where a: "a < length h"
      and items: "cloneItems (clone fuel) h (h ! a) = Inr (h', ys)"
      and res: "h1 = h' @ [ys]" "a' = length h'"
      by (auto simp: bindE_Inr_iff alloc_def split: if_splits)
    from cloneItems_good [OF Suc items] obtain ext where
      e: "h' = h @ ext" and f: "freshClosed (length h) h'"
      and ys: "\<forall>c. StructStackItem c \<in> set ys \<longrightarrow> length h \<le> c \<and> c < length h'"
      by blast
    have len: "length h \<le> length h'" using e by simp
    have "freshClosed (length h) (h' @ [ys])"
      unfolding freshClosed_def
    proof (intro allI impI)
      fix b c
      assume b: "length h \<le> b \<and> b < length (h' @ [ys])"
        and c: "StructStackItem c \<in> set ((h' @ [ys]) ! b)"
      show "length h \<le> c \<and> c < length (h' @ [ys])"
      proof (cases "b < length h'")
        case True
        then have "StructStackItem c \<in> set (h' ! b)" using c by (simp add: nth_append)
        then have "length h \<le> c \<and> c < length h'"
          using f b True unfolding freshClosed_def by blast
        then show ?thesis by simp
      next
        case False
        then have "b = length h'" using b by simp
        then have "StructStackItem c \<in> set ys" using c by simp
        then have "length h \<le> c \<and> c < length h'" using ys by blast
        then show ?thesis by simp
      qed
    qed
    then have "freshClosed (length h) h1"
      using res by simp
    then show "(\<exists>ext. h1 = h @ ext) \<and> length h \<le> a' \<and> a' < length h1
            \<and> freshClosed (length h) h1"
      using e res len by simp
  qed
qed

lemma clone_result:
  assumes "clone fuel h s = Inr (h1, a')"
  shows "(\<exists>ext. h1 = h @ ext) \<and> length h \<le> a' \<and> a' < length h1
         \<and> freshClosed (length h) h1 \<and> s < length h \<and> cloneOf (h ! s) (h1 ! a')"
proof -
  have good: "(\<exists>ext. h1 = h @ ext) \<and> length h \<le> a' \<and> a' < length h1
         \<and> freshClosed (length h) h1"
    using clone_good [of fuel] assms unfolding goodClone_def by blast
  obtain f where fuel: "fuel = Suc f" using assms by (cases fuel) auto
  from assms obtain h' ys where a: "s < length h"
      and items: "cloneItems (clone f) h (h ! s) = Inr (h', ys)"
      and res: "h1 = h' @ [ys]" "a' = length h'"
    by (auto simp: fuel bindE_Inr_iff alloc_def split: if_splits)
  have "cloneOf (h ! s) ys"
    using cloneItems_good [OF clone_good items] by blast
  then show ?thesis using good a res by simp
qed

lemma structReach_fresh:
  assumes "freshClosed n h1" "n \<le> a"
  shows "structReach h1 a b \<Longrightarrow> n \<le> b"
proof (induction rule: structReach.induct)
  case here
  then show ?case using assms by simp
next
  case (inside b c)
  then show ?case using assms(1) unfolding freshClosed_def by blast
qed


lemma structReach_fresh_bound:
  assumes "freshClosed n h1" "n \<le> a" "a < length h1"
  shows "structReach h1 a b \<Longrightarrow> n \<le> b \<and> b < length h1"
proof (induction rule: structReach.induct)
  case here
  then show ?case using assms by simp
next
  case (inside b c)
  then show ?case using assms(1) unfolding freshClosed_def by blast
qed

lemma SETITEM_invoke_cases:
  assumes "SETITEM_invoke X lim h ctx [v, ix, t] argsAlt = Inr (h2, r)"
    and "arrayRef t = Inr tt"
  shows "\<exists>hc newItem bi n.
           storedItem lim h v = Inr (hc, newItem)
           \<and> asBigInteger X ix = Inr bi \<and> toNumber X bi = Inr n
           \<and> tt < length hc \<and> 0 \<le> n \<and> n < int (length (hc ! tt))
           \<and> h2 = hc [tt := (hc ! tt) [nat n := newItem]]"
proof -
  let ?new = "storedItem lim h v"
  let ?put = "\<lambda>h1 newItem index.
       if tt < length h1 then
         if index < 0 \<or> index \<ge> int (length (h1 ! tt)) then Inl InvalidSetItemIndexError
         else opResult (h1 [tt := (h1 ! tt) [nat index := newItem]]) ctx [] []
       else Inl TypeError"
  have run: "bindE ?new (\<lambda>(h1, newItem).
          bindE (asBigInteger X ix) (\<lambda>b.
          bindE (toNumber X b) (\<lambda>index. ?put h1 newItem index))) = Inr (h2, r)"
    using assms by (simp add: SETITEM_invoke_def storedItem_def)
  then obtain p where p: "?new = Inr p"
    by (cases ?new) simp_all
  obtain hc newItem where pc: "p = (hc, newItem)"
    by (cases p)
  have run2: "bindE (asBigInteger X ix) (\<lambda>b.
          bindE (toNumber X b) (\<lambda>index. ?put hc newItem index)) = Inr (h2, r)"
    using run by (simp only: p pc bindE_simps split_conv)
  then obtain bi where bi: "asBigInteger X ix = Inr bi"
    by (cases "asBigInteger X ix") simp_all
  have run3: "bindE (toNumber X bi) (\<lambda>index. ?put hc newItem index) = Inr (h2, r)"
    using run2 by (simp only: bi bindE_simps)
  then obtain n where n: "toNumber X bi = Inr n"
    by (cases "toNumber X bi") simp_all
  have run4: "?put hc newItem n = Inr (h2, r)"
    using run3 by (simp only: n bindE_simps)
  have tt: "tt < length hc"
    using run4 by (simp split: if_splits)
  have rng: "0 \<le> n \<and> n < int (length (hc ! tt))"
    using run4 tt by (simp split: if_splits)
  have "h2 = hc [tt := (hc ! tt) [nat n := newItem]]"
    using run4 tt rng by (simp add: opResult_def)
  then show ?thesis
    using p pc bi n tt rng by blast
qed

lemma storedItem_struct:
  assumes "storedItem lim h (StructStackItem s) = Inr (hc, newItem)"
  shows "\<exists>a'. clone lim h s = Inr (hc, a') \<and> newItem = StructStackItem a'"
proof -
  have c: "bindE (clone lim h s) (\<lambda>(h1, s'). Inr (h1, StructStackItem s')) = Inr (hc, newItem)"
    using assms by (simp add: storedItem_def)
  then obtain q where q: "clone lim h s = Inr q"
    by (cases "clone lim h s") simp_all
  obtain hq a' where qq: "q = (hq, a')" by (cases q)
  have "hq = hc" "newItem = StructStackItem a'"
    using c q qq by simp_all
  then show ?thesis using q qq by simp
qed

lemma storedItem_other:
  assumes "\<not> isStruct v"
  shows "storedItem lim h v = Inr (h, v)"
  using assms by (cases v) (simp_all add: storedItem_def)

lemma storedItem_heap:
  assumes "storedItem lim h v = Inr (hc, newItem)"
  shows "\<exists>ext. hc = h @ ext"
proof (cases "isStruct v")
  case True
  then obtain s where v: "v = StructStackItem s" by (cases v) simp_all
  then obtain a' where "clone lim h s = Inr (hc, a')"
    using assms storedItem_struct by blast
  then show ?thesis using clone_result by blast
next
  case False
  then have "hc = h" using assms storedItem_other by simp
  then show ?thesis by simp
qed

lemma SETITEM_frame:
  assumes "SETITEM_invoke X lim h ctx [v, ix, t] argsAlt = Inr (h2, r)"
    and "arrayRef t = Inr tt" and "b < length h" and "b \<noteq> tt"
  shows "h2 ! b = h ! b \<and> b < length h2"
proof -
  from SETITEM_invoke_cases [OF assms(1,2)] obtain hc newItem bi n where
    c: "storedItem lim h v = Inr (hc, newItem)"
    and h2: "h2 = hc [tt := (hc ! tt) [nat n := newItem]]"
    by blast
  from storedItem_heap [OF c] obtain ext where "hc = h @ ext" by blast
  then show ?thesis
    using h2 assms(3,4) by (simp add: nth_append)
qed

lemma SETITEM_struct_stores_clone:
  assumes first: "SETITEM_invoke X lim h ctx [StructStackItem s, ix, dest] argsAlt = Inr (h1, r)"
    and dest: "arrayRef dest = Inr d" and live: "d < length h"
    and index: "asBigInteger X ix = Inr bi" "toNumber X bi = Inr (int i)"
  shows "\<exists>a'. (h1 ! d) ! i = StructStackItem a'
           \<and> length h \<le> a' \<and> a' < length h1
           \<and> cloneOf (h ! s) (h1 ! a')
           \<and> freshClosed (length h) h1"
proof -
  from SETITEM_invoke_cases [OF first dest] obtain hc newItem bi' n where
    c: "storedItem lim h (StructStackItem s) = Inr (hc, newItem)"
    and bi': "asBigInteger X ix = Inr bi'" and n: "toNumber X bi' = Inr n"
    and d: "d < length hc" and rng: "0 \<le> n \<and> n < int (length (hc ! d))"
    and h1': "h1 = hc [d := (hc ! d) [nat n := newItem]]"
    by blast
  have "bi' = bi" using bi' index(1) by simp
  then have ni: "n = int i" using n index(2) by simp
  have i: "i < length (hc ! d)" using rng ni by simp
  have h1: "h1 = hc [d := (hc ! d) [i := newItem]]" using h1' ni by simp
  from storedItem_struct [OF c] obtain a' where
    cl: "clone lim h s = Inr (hc, a')" and nw: "newItem = StructStackItem a'"
    by blast
  from clone_result [OF cl] obtain ext where
    e: "hc = h @ ext" and a': "length h \<le> a'" "a' < length hc"
    and f: "freshClosed (length h) hc" and co: "cloneOf (h ! s) (hc ! a')"
    by blast
  have stored: "(h1 ! d) ! i = StructStackItem a'"
    using h1 d i nw by simp
  have same: "h1 ! a' = hc ! a'"
    using h1 a' live by simp
  have len: "length h1 = length hc"
    using h1 by simp
  have fresh: "freshClosed (length h) h1"
    unfolding freshClosed_def
  proof (intro allI impI)
    fix b c
    assume b: "length h \<le> b \<and> b < length h1" and c: "StructStackItem c \<in> set (h1 ! b)"
    have "h1 ! b = hc ! b" using h1 live b by simp
    then have "StructStackItem c \<in> set (hc ! b)" using c by simp
    moreover have "length h \<le> b \<and> b < length hc" using b len by simp
    ultimately have "length h \<le> c \<and> c < length hc"
      using f unfolding freshClosed_def by blast
    then show "length h \<le> c \<and> c < length h1"
      using len by simp
  qed
  have "(h1 ! d) ! i = StructStackItem a' \<and> length h \<le> a' \<and> a' < length h1
      \<and> cloneOf (h ! s) (h1 ! a') \<and> freshClosed (length h) h1"
    using stored a' same co len fresh by simp
  then show ?thesis ..
qed


lemma SETITEM_later_keeps_clone:
  assumes fresh: "freshClosed (length h) h1" and a': "length h \<le> a'" "a' < length h1"
    and later: "SETITEM_invoke X lim h1 ctx' [v, ix', t] argsAlt' = Inr (h2, r2)"
    and t: "arrayRef t = Inr tt" "tt < length h"
    and reach: "structReach h1 a' b"
  shows "h2 ! b = h1 ! b"
proof -
  have b: "length h \<le> b \<and> b < length h1"
    using structReach_fresh_bound [OF fresh a'] reach by blast
  then have "b \<noteq> tt" using t(2) by simp
  then show ?thesis
    using SETITEM_frame [OF later t(1)] b by blast
qed

lemma SETITEM_other_stored:
  assumes "\<not> isStruct w" and "arrayRef dest = Inr d" and "d < length h"
    and "asBigInteger X ix = Inr bi" and "toNumber X bi = Inr (int i)" and "i < length (h ! d)"
  shows "SETITEM_invoke X lim h ctx [w, ix, dest] argsAlt
         = opResult (h [d := (h ! d) [i := w]]) ctx [] []"
proof -
  have "storedItem lim h w = Inr (h, w)"
    using assms(1) by (rule storedItem_other)
  then have "(case w of
          StructStackItem s \<Rightarrow>
            bindE (clone lim h s) (\<lambda>(h1, s'). Inr (h1, StructStackItem s'))
        | _ \<Rightarrow> Inr (h, w)) = Inr (h, w)"
    by (simp add: storedItem_def)
  then show ?thesis
    using assms(2-6) by (simp add: SETITEM_invoke_def)
qed

lemma SETITEM_invoke_op: "op_invoke (SETITEM X lim c) = SETITEM_invoke X lim"
  by (simp add: SETITEM_def createOp_simps)

text \<open>
  With enough call depth the clone is made: one level suffices for a struct that holds no
  struct, and \<open>SETITEM\<close> then returns.
\<close>

lemma cloneItems_flat:
  "list_all (\<lambda>x. \<not> isStruct x) xs \<Longrightarrow> cloneItems rec h xs = Inr (h, xs)"
proof (induction xs)
  case Nil
  then show ?case by simp
next
  case (Cons x xs)
  then show ?case by (cases x) simp_all
qed

lemma clone_flat:
  "s < length h \<Longrightarrow> list_all (\<lambda>x. \<not> isStruct x) (h ! s)
   \<Longrightarrow> clone (Suc f) h s = Inr (h @ [h ! s], length h)"
  by (simp add: cloneItems_flat alloc_def)

lemma SETITEM_flat_struct_returns:
  assumes "s < length h" and "list_all (\<lambda>x. \<not> isStruct x) (h ! s)"
    and "arrayRef dest = Inr d" and "d < length h"
    and "asBigInteger X ix = Inr bi" and "toNumber X bi = Inr (int i)" and "i < length (h ! d)"
  shows "SETITEM_invoke X (Suc f) h ctx [StructStackItem s, ix, dest] argsAlt
         = opResult ((h @ [h ! s]) [d := (h ! d) [i := StructStackItem (length h)]]) ctx [] []"
proof -
  have "clone (Suc f) h s = Inr (h @ [h ! s], length h)"
    using assms(1,2) by (rule clone_flat)
  then show ?thesis
    using assms(3-7) by (simp add: SETITEM_invoke_def nth_append del: clone.simps)
qed

lemma sample_coercions:
  "asBigInteger sampleExternals (IntegerStackItem n) = Inr n"
  "toNumber sampleExternals n = Inr n"
  by (simp_all add: sampleExternals_def)

lemma nestedWithin_Suc:
  "nestedWithin (Suc n) h a = (a < length h \<and> list_all (nestedItem n h) (h ! a))"
  by (simp add: nestedItem_def [abs_def])

declare nestedWithin.simps(2) [simp del]

lemma nestedItem_simps [simp]:
  "nestedItem n h (StructStackItem b) = nestedWithin n h b"
  "\<not> isStruct x \<Longrightarrow> nestedItem n h x"
  by (cases x; simp add: nestedItem_def)+

lemma structValue_atom [simp]: "\<not> isStruct x \<Longrightarrow> structValue n h x = Atom x"
  by (cases n; cases x; simp)

lemma nestedWithin_append: "nestedWithin n h a \<Longrightarrow> nestedWithin n (h @ ext) a"
proof (induction n arbitrary: a)
  case 0
  then show ?case by simp
next
  case (Suc n)
  then have a: "a < length h" and items: "list_all (nestedItem n h) (h ! a)"
    by (simp_all add: nestedWithin_Suc)
  have "nestedItem n (h @ ext) x" if "x \<in> set (h ! a)" for x
  proof (cases "isStruct x")
    case True
    then obtain b where x: "x = StructStackItem b" by (cases x) simp_all
    have "nestedWithin n h b" using items that x by (auto simp: list_all_iff)
    then show ?thesis using Suc.IH x by simp
  next
    case False
    then show ?thesis by simp
  qed
  then have "list_all (nestedItem n (h @ ext)) (h ! a)"
    by (simp add: list_all_iff)
  then show ?case
    using a by (simp add: nestedWithin_Suc nth_append)
qed

lemma nestedItem_append: "nestedItem n h x \<Longrightarrow> nestedItem n (h @ ext) x"
  by (cases "isStruct x") (auto simp: nestedItem_def nestedWithin_append split: StackItem.splits)

lemma structValue_frame:
  "nestedWithin f h b \<Longrightarrow> structValue n (h @ ext) (StructStackItem b) = structValue n h (StructStackItem b)"
proof (induction f arbitrary: n b)
  case 0
  then show ?case by simp
next
  case (Suc f)
  then have b: "b < length h" and items: "list_all (nestedItem f h) (h ! b)"
    by (simp_all add: nestedWithin_Suc)
  show ?case
  proof (cases n)
    case 0
    then show ?thesis by simp
  next
    case (Suc m)
    have "structValue m (h @ ext) x = structValue m h x" if "x \<in> set (h ! b)" for x
    proof (cases "isStruct x")
      case True
      then obtain c where x: "x = StructStackItem c" by (cases x) simp_all
      have "nestedWithin f h c" using items that x by (auto simp: list_all_iff)
      then show ?thesis using Suc.IH x by simp
    next
      case False
      then show ?thesis by simp
    qed
    then have "map (structValue m (h @ ext)) (h ! b) = map (structValue m h) (h ! b)"
      by simp
    then show ?thesis
      using b Suc by (simp add: nth_append)
  qed
qed

lemma structValue_item_frame:
  "nestedItem f h x \<Longrightarrow> structValue n (h @ ext) x = structValue n h x"
proof (cases "isStruct x")
  case True
  assume "nestedItem f h x"
  then show ?thesis using True structValue_frame by (cases x) auto
next
  case False
  then show ?thesis by simp
qed

lemma structValue_fresh_frame:
  "freshClosed m hx \<Longrightarrow> m \<le> b \<Longrightarrow> b < length hx
   \<Longrightarrow> structValue n (hx @ ext) (StructStackItem b) = structValue n hx (StructStackItem b)"
proof (induction n arbitrary: b)
  case 0
  then show ?case by simp
next
  case (Suc n)
  have "structValue n (hx @ ext) x = structValue n hx x" if "x \<in> set (hx ! b)" for x
  proof (cases "isStruct x")
    case True
    then obtain c where x: "x = StructStackItem c" by (cases x) simp_all
    have "m \<le> c \<and> c < length hx"
      using Suc.prems that x unfolding freshClosed_def by blast
    then show ?thesis using Suc.IH Suc.prems(1) x by simp
  next
    case False
    then show ?thesis by simp
  qed
  then have "map (structValue n (hx @ ext)) (hx ! b) = map (structValue n hx) (hx ! b)"
    by simp
  then show ?case
    using Suc.prems by (simp add: nth_append)
qed

lemma cloneItems_deep:
  assumes good: "goodClone rec" and deep: "deepClone f rec"
  shows "list_all (nestedItem f h) xs
         \<Longrightarrow> \<exists>h' ys. cloneItems rec h xs = Inr (h', ys)
               \<and> (\<forall>n. map (structValue n h') ys = map (structValue n h) xs)"
proof (induction xs arbitrary: h)
  case Nil
  then show ?case by simp
next
  case (Cons x xs)
  then have nx: "nestedItem f h x" and nxs: "list_all (nestedItem f h) xs"
    by simp_all
  show ?case
  proof (cases "isStruct x")
    case True
    then obtain b where x: "x = StructStackItem b" by (cases x) simp_all
    have nb: "nestedWithin f h b" using nx x by simp
    from deep nb obtain hb b' where
      rec: "rec h b = Inr (hb, b')"
      and vb: "\<forall>n. structValue n hb (StructStackItem b') = structValue n h (StructStackItem b)"
      unfolding deepClone_def by blast
    from good rec obtain ext1 where
      e1: "hb = h @ ext1" and b': "length h \<le> b'" "b' < length hb"
      and f1: "freshClosed (length h) hb"
      unfolding goodClone_def by blast
    have "list_all (nestedItem f hb) xs"
      using nxs e1 by (auto simp: list_all_iff nestedItem_append)
    from Cons.IH [OF this] obtain h2 ys' where
      rest: "cloneItems rec hb xs = Inr (h2, ys')"
      and vr: "\<forall>n. map (structValue n h2) ys' = map (structValue n hb) xs"
      by blast
    have good2: "(\<exists>ext. h2 = hb @ ext)"
      using cloneItems_good [OF good rest] by blast
    then obtain ext2 where e2: "h2 = hb @ ext2" by blast
    have run: "cloneItems rec h (x # xs) = Inr (h2, StructStackItem b' # ys')"
      using rec rest x by simp
    have head: "structValue n h2 (StructStackItem b') = structValue n h (StructStackItem b)" for n
      using structValue_fresh_frame [OF f1 b'(1) b'(2), of n ext2] vb e2 by simp
    have tail: "map (structValue n hb) xs = map (structValue n h) xs" for n
      using nxs e1 by (auto simp: list_all_iff structValue_item_frame)
    have "map (structValue n h2) (StructStackItem b' # ys') = map (structValue n h) (x # xs)" for n
      using head [of n] vr tail [of n] x by simp
    then show ?thesis using run by blast
  next
    case False
    from Cons.IH [OF nxs] obtain h2 ys' where
      rest: "cloneItems rec h xs = Inr (h2, ys')"
      and vr: "\<forall>n. map (structValue n h2) ys' = map (structValue n h) xs"
      by blast
    have run: "cloneItems rec h (x # xs) = Inr (h2, x # ys')"
      using rest False by (cases x) simp_all
    have "map (structValue n h2) (x # ys') = map (structValue n h) (x # xs)" for n
      using vr False by simp
    then show ?thesis using run by blast
  qed
qed

lemma clone_deep: "deepClone f (clone f)"
proof (induction f)
  case 0
  then show ?case by (simp add: deepClone_def)
next
  case (Suc f)
  show ?case
    unfolding deepClone_def
  proof (intro allI impI)
    fix h b
    assume "nestedWithin (Suc f) h b"
    then have b: "b < length h" and items: "list_all (nestedItem f h) (h ! b)"
      by (simp_all add: nestedWithin_Suc)
    from cloneItems_deep [OF clone_good Suc items] obtain h' ys where
      run: "cloneItems (clone f) h (h ! b) = Inr (h', ys)"
      and vs: "\<forall>n. map (structValue n h') ys = map (structValue n h) (h ! b)"
      by blast
    from cloneItems_good [OF clone_good run] obtain ext where
      e: "h' = h @ ext" and fr: "freshClosed (length h) h'"
      and ys: "\<forall>c. StructStackItem c \<in> set ys \<longrightarrow> length h \<le> c \<and> c < length h'"
      by blast
    have cl: "clone (Suc f) h b = Inr (h' @ [ys], length h')"
      using b run by (simp add: alloc_def)
    have item: "structValue n (h' @ [ys]) y = structValue n h' y" if "y \<in> set ys" for n y
    proof (cases "isStruct y")
      case True
      then obtain c where y: "y = StructStackItem c" by (cases y) simp_all
      then have "length h \<le> c \<and> c < length h'" using ys that by blast
      then show ?thesis using structValue_fresh_frame [OF fr, of c n "[ys]"] y by simp
    next
      case False
      then show ?thesis by simp
    qed
    have "structValue n (h' @ [ys]) (StructStackItem (length h'))
          = structValue n h (StructStackItem b)" for n
    proof (cases n)
      case 0
      then show ?thesis by simp
    next
      case (Suc m)
      have "map (structValue m (h' @ [ys])) ys = map (structValue m h') ys"
        using item by simp
      then show ?thesis
        using Suc vs b by simp
    qed
    then show "\<exists>h1 b'. clone (Suc f) h b = Inr (h1, b')
        \<and> (\<forall>n. structValue n h1 (StructStackItem b') = structValue n h (StructStackItem b))"
      using cl by blast
  qed
qed

lemma nestedWithin_mono: "nestedWithin n h a \<Longrightarrow> nestedWithin (Suc n) h a"
proof (induction n arbitrary: a)
  case 0
  then show ?case by simp
next
  case (Suc n)
  then have a: "a < length h" and items: "list_all (nestedItem n h) (h ! a)"
    by (simp_all add: nestedWithin_Suc)
  have "nestedItem (Suc n) h x" if "x \<in> set (h ! a)" for x
  proof (cases "isStruct x")
    case True
    then obtain b where x: "x = StructStackItem b" by (cases x) simp_all
    have "nestedWithin n h b" using items that x by (auto simp: list_all_iff)
    then show ?thesis using Suc.IH x by simp
  next
    case False
    then show ?thesis by simp
  qed
  then have "list_all (nestedItem (Suc n) h) (h ! a)"
    by (simp add: list_all_iff)
  then show ?case
    using a nestedWithin_Suc [of "Suc n" h a] by simp
qed

lemma structReach_trans:
  "structReach h b c \<Longrightarrow> structReach h a b \<Longrightarrow> structReach h a c"
proof (induction rule: structReach.induct)
  case here
  then show ?case by simp
next
  case (inside b' c')
  then show ?case using structReach.inside by blast
qed

lemma structValue_same:
  "(\<forall>b. structReach h1 a b \<longrightarrow> b < length h1 \<and> b < length h2 \<and> h2 ! b = h1 ! b)
   \<Longrightarrow> structValue n h2 (StructStackItem a) = structValue n h1 (StructStackItem a)"
proof (induction n arbitrary: a)
  case 0
  then show ?case by simp
next
  case (Suc n)
  have a: "a < length h1" "a < length h2" "h2 ! a = h1 ! a"
    using Suc.prems structReach.here by blast+
  have "structValue n h2 x = structValue n h1 x" if "x \<in> set (h1 ! a)" for x
  proof (cases "isStruct x")
    case True
    then obtain c where x: "x = StructStackItem c" by (cases x) simp_all
    have ac: "structReach h1 a c"
      using structReach.inside [OF structReach.here a(1)] that x by blast
    have "\<forall>b. structReach h1 c b \<longrightarrow> b < length h1 \<and> b < length h2 \<and> h2 ! b = h1 ! b"
      using Suc.prems structReach_trans [OF _ ac] by blast
    then show ?thesis using Suc.IH x by simp
  next
    case False
    then show ?thesis by simp
  qed
  then have "map (structValue n h2) (h1 ! a) = map (structValue n h1) (h1 ! a)"
    by simp
  then show ?case using a by simp
qed

lemma SETITEM_invoke_result:
  assumes "SETITEM_invoke X lim h ctx args argsAlt = Inr (h2, r)"
  shows "r = \<lparr> res_context = ctx, results = [], resultsAlt = [] \<rparr>"
  using assms unfolding SETITEM_invoke_def
  by (auto simp: bindE_Inr_iff opResult_def split: if_splits)

lemma SETITEM_fields:
  "op_in (SETITEM X lim c) = 3" "op_inAlt (SETITEM X lim c) = 0"
  "op_context (SETITEM X lim c) = c"
  by (simp_all add: SETITEM_def createOp_simps)

lemma OPCODES_SETITEM: "OPCODES X lim 0xC4 = Some (static (SETITEM X lim))"
  by (simp add: OPCODES_def OPCODE_PAIRS_def)

lemma run_SETITEM:
  assumes "codeAt (code c0) (pc c0) = Some 0xC4" and "stack c0 = v # ix # t # rest"
  shows "bindE (lookupOp (OPCODES X lim) h c0) (runOp h)
         = bindE (SETITEM_invoke X lim h (c0 \<lparr> pc := pc c0 + 1, stack := rest \<rparr>) [v, ix, t] [])
             (\<lambda>(h', r). Inr (h', c0 \<lparr> pc := pc c0 + 1, stack := rest \<rparr>))"
proof -
  let ?c1 = "c0 \<lparr> pc := pc c0 + 1, stack := rest, stackAlt := stackAlt c0 \<rparr>"
  have c1: "?c1 = c0 \<lparr> pc := pc c0 + 1, stack := rest \<rparr>"
    by simp
  have look: "lookupOp (OPCODES X lim) h c0 = Inr (SETITEM X lim (c0 \<lparr> pc := pc c0 + 1 \<rparr>))"
    using lookupOp_static [of c0 "0xC4" "OPCODES X lim" "SETITEM X lim" h] assms(1)
      OPCODES_SETITEM [of X lim]
    by simp
  show ?thesis
  proof (cases "SETITEM_invoke X lim h ?c1 [v, ix, t] []")
    case (Inl e)
    then show ?thesis
      using assms(2) look
      by (simp add: runOp_def SETITEM_fields SETITEM_invoke_op Let_def)
  next
    case (Inr p)
    obtain h' r where p: "p = (h', r)" by (cases p)
    have r: "r = \<lparr> res_context = ?c1, results = [], resultsAlt = [] \<rparr>"
      using SETITEM_invoke_result Inr p by blast
    show ?thesis
      using assms(2) look Inr p r
      by (simp add: runOp_def SETITEM_fields SETITEM_invoke_op Let_def)
  qed
qed

lemma setitemContext_fields:
  "codeAt (code (setitemContext stk)) (pc (setitemContext stk)) = Some 0xC4"
  "stack (setitemContext stk) = stk"
  "setitemContext stk \<lparr> pc := pc (setitemContext stk) + 1, stack := rest \<rparr>
   = setitemContext rest \<lparr> pc := 1 \<rparr>"
  by (simp_all add: setitemContext_def sampleContext_def codeAt_def)

lemma sample_run:
  "bindE (lookupOp (OPCODES sampleExternals 2) h (setitemContext [v, ix, t])) (runOp h)
   = bindE (SETITEM_invoke sampleExternals 2 h (setitemContext [] \<lparr> pc := 1 \<rparr>) [v, ix, t] [])
       (\<lambda>(h', r). Inr (h', setitemContext [] \<lparr> pc := 1 \<rparr>))"
  using run_SETITEM [where ?c0.0 = "setitemContext [v, ix, t]" and v = v and ix = ix and t = t
      and rest = "[]" and X = sampleExternals and lim = 2 and h = h]
  by (simp add: setitemContext_fields)

lemma sample_run_first:
  "bindE (lookupOp (OPCODES sampleExternals 2) sampleHeap
            (setitemContext [StructStackItem 1, IntegerStackItem 0, ArrayStackItem 2]))
     (runOp sampleHeap)
   = Inr (sampleHeap1, setitemContext [] \<lparr> pc := 1 \<rparr>)"
  unfolding sample_run
  by (simp add: SETITEM_invoke_def sample_coercions sampleHeap_def
      sampleHeap1_def numeral_2_eq_2 alloc_def opResult_def)

lemma sample_run_later:
  "bindE (lookupOp (OPCODES sampleExternals 2) sampleHeap1
            (setitemContext [IntegerStackItem 9, IntegerStackItem 0, StructStackItem 0]))
     (runOp sampleHeap1)
   = Inr (sampleHeap2, setitemContext [] \<lparr> pc := 1 \<rparr>)"
  unfolding sample_run
  by (simp add: SETITEM_invoke_def sample_coercions sampleHeap1_def
      sampleHeap2_def opResult_def)

lemma sample_nesting: "nestedWithin 2 sampleHeap 1"
  by (simp add: numeral_2_eq_2 nestedWithin_Suc sampleHeap_def)




end
